theory Spec2Isabelle
  imports Main "HOL-Library.Char_ord" "HOL-Library.List_Lexorder" "HOL-Library.Sublist"
    "HOL-Library.AList"
begin

section \<open>Termux Web Backup Suite: the pipeline engine of \<^verbatim>\<open>backup_server.py\<close>\<close>

text \<open>
  A shallow embedding of the pipeline engine: the path resolver
  (\<^verbatim>\<open>prune_redundant_paths\<close>), the two stage monitors
  (\<^verbatim>\<open>monitor_process_stderr\<close>, \<^verbatim>\<open>monitor_pv_progress\<close>), the pipeline builders
  and the two executors (\<^verbatim>\<open>run_backup_task\<close>, \<^verbatim>\<open>run_extraction_task\<close>).

  Conventions of the model.
  \<^item> A Python \<^verbatim>\<open>str\<close> is a \<open>string\<close>; a character is one byte. The character classes
    of \<^verbatim>\<open>re\<close> (\<^verbatim>\<open>\d\<close>, \<^verbatim>\<open>\w\<close>, \<^verbatim>\<open>\s\<close>), \<^verbatim>\<open>str.strip\<close>, \<^verbatim>\<open>str.split\<close> and \<^verbatim>\<open>str.lower\<close>
    are modelled on ASCII.
  \<^item> \<^verbatim>\<open>os.path\<close> is \<^verbatim>\<open>posixpath\<close> (the program runs on Termux); its functions are
    transcribed from the standard library.
  \<^item> Everything outside the Python process is an oracle of the record \<open>env\<close>: the
    working directory, the readability of a path, the size cache, what \<^verbatim>\<open>du\<close> answers,
    what each stage writes and how it exits, and the scheduling of the monitor thread
    against the copy loop.
  \<^item> What the process changes is the record \<open>world\<close>: the processes it spawned, the
    files that exist, the events it emitted, the number of \<^verbatim>\<open>du\<close> queries it ran.
  \<^item> An exception is a value \<open>Inl e\<close> of \<open>error + 'a\<close>.
\<close>

subsection \<open>Strings\<close>

definition startswith :: "string \<Rightarrow> string \<Rightarrow> bool" where
  "startswith s p = prefix p s"

definition endswith :: "string \<Rightarrow> string \<Rightarrow> bool" where
  "endswith s p = suffix p s"

text \<open>\<^verbatim>\<open>sub in s\<close>\<close>

fun contains :: "string \<Rightarrow> string \<Rightarrow> bool" where
  "contains [] sub = (sub = [])"
| "contains (x # xs) sub = (prefix sub (x # xs) \<or> contains xs sub)"

text \<open>\<^verbatim>\<open>s.split(c)\<close> for a separator of one character.\<close>

fun split_sep :: "char \<Rightarrow> string \<Rightarrow> string list" where
  "split_sep c [] = [[]]"
| "split_sep c (x # xs) =
     (if x = c then [] # split_sep c xs
      else (x # hd (split_sep c xs)) # tl (split_sep c xs))"

text \<open>\<^verbatim>\<open>s.join(parts)\<close>\<close>

fun join_sep :: "string \<Rightarrow> string list \<Rightarrow> string" where
  "join_sep s [] = []"
| "join_sep s [x] = x"
| "join_sep s (x # y # ys) = x @ s @ join_sep s (y # ys)"

definition is_space :: "char \<Rightarrow> bool" where
  "is_space c = (c \<in> set [CHR '' '', CHR 0x09, CHR 0x0A, CHR 0x0B, CHR 0x0C, CHR 0x0D,
                           CHR 0x1C, CHR 0x1D, CHR 0x1E, CHR 0x1F])"

definition is_digit :: "char \<Rightarrow> bool" where
  "is_digit c = (c \<in> set ''0123456789'')"

definition is_word :: "char \<Rightarrow> bool" where
  "is_word c = (c \<in> set ''abcdefghijklmnopqrstuvwxyzABCDEFGHIJKLMNOPQRSTUVWXYZ0123456789_'')"

text \<open>\<^verbatim>\<open>s.strip()\<close> and \<^verbatim>\<open>s.strip(chars)\<close>\<close>

definition strip_with :: "(char \<Rightarrow> bool) \<Rightarrow> string \<Rightarrow> string" where
  "strip_with P s = rev (dropWhile P (rev (dropWhile P s)))"

definition strip :: "string \<Rightarrow> string" where
  "strip s = strip_with is_space s"

definition lower_char :: "char \<Rightarrow> char" where
  "lower_char c =
     (case map_of (zip ''ABCDEFGHIJKLMNOPQRSTUVWXYZ'' ''abcdefghijklmnopqrstuvwxyz'') c of
        Some d \<Rightarrow> d
      | None \<Rightarrow> c)"

definition lower :: "string \<Rightarrow> string" where
  "lower s = map lower_char s"

text \<open>\<^verbatim>\<open>s.split()\<close>: the maximal runs of characters that are not whitespace.\<close>

fun split_ws_acc :: "string \<Rightarrow> string \<Rightarrow> string list" where
  "split_ws_acc acc [] = (if acc = [] then [] else [rev acc])"
| "split_ws_acc acc (x # xs) =
     (if is_space x then (if acc = [] then [] else [rev acc]) @ split_ws_acc [] xs
      else split_ws_acc (x # acc) xs)"

definition split_ws :: "string \<Rightarrow> string list" where
  "split_ws s = split_ws_acc [] s"

subsection \<open>\<^verbatim>\<open>posixpath\<close>\<close>

definition isabs :: "string \<Rightarrow> bool" where
  "isabs s = startswith s ''/''"

text \<open>\<^verbatim>\<open>os.path.join(a, b)\<close>\<close>

definition path_join :: "string \<Rightarrow> string \<Rightarrow> string" where
  "path_join a b =
     (if startswith b ''/'' then b
      else if a = [] \<or> endswith a ''/'' then a @ b
      else a @ ''/'' @ b)"

text \<open>
  The loop of \<^verbatim>\<open>normpath\<close> over the components: empty and \<^verbatim>\<open>.\<close> components are
  skipped, \<^verbatim>\<open>..\<close> removes the component before it unless there is none to remove.
\<close>

fun norm_comps :: "nat \<Rightarrow> string list \<Rightarrow> string list \<Rightarrow> string list" where
  "norm_comps nsl new_comps [] = new_comps"
| "norm_comps nsl new_comps (cpt # comps) =
     (if cpt = [] \<or> cpt = ''.'' then norm_comps nsl new_comps comps
      else if cpt \<noteq> ''..'' \<or> (nsl = 0 \<and> new_comps = [])
               \<or> (new_comps \<noteq> [] \<and> last new_comps = ''..'')
           then norm_comps nsl (new_comps @ [cpt]) comps
      else if new_comps \<noteq> [] then norm_comps nsl (butlast new_comps) comps
      else norm_comps nsl new_comps comps)"

text \<open>POSIX keeps exactly two leading slashes apart from one; three or more are one.\<close>

definition initial_slashes :: "string \<Rightarrow> nat" where
  "initial_slashes path =
     (if startswith path ''/'' then
        (if startswith path ''//'' \<and> \<not> startswith path ''///'' then 2 else 1)
      else 0)"

definition normpath :: "string \<Rightarrow> string" where
  "normpath path =
     (if path = [] then ''.''
      else let nsl = initial_slashes path;
               comps = norm_comps nsl [] (split_sep CHR ''/'' path);
               p = replicate nsl CHR ''/'' @ join_sep ''/'' comps
           in if p = [] then ''.'' else p)"

text \<open>\<^verbatim>\<open>os.path.abspath(path)\<close>, with \<^verbatim>\<open>os.getcwd()\<close> as the first argument.\<close>

definition abspath :: "string \<Rightarrow> string \<Rightarrow> string" where
  "abspath cwd path = (if \<not> isabs path then normpath (path_join cwd path) else normpath path)"

text \<open>\<^verbatim>\<open>os.path.dirname\<close> and \<^verbatim>\<open>os.path.basename\<close>: split at the last slash.\<close>

definition path_head :: "string \<Rightarrow> string" where
  "path_head p = rev (dropWhile (\<lambda>c. c \<noteq> CHR ''/'') (rev p))"

definition basename :: "string \<Rightarrow> string" where
  "basename p = rev (takeWhile (\<lambda>c. c \<noteq> CHR ''/'') (rev p))"

definition dirname :: "string \<Rightarrow> string" where
  "dirname p =
     (let h = path_head p
      in if h \<noteq> [] \<and> h \<noteq> replicate (length h) CHR ''/''
         then rev (dropWhile (\<lambda>c. c = CHR ''/'') (rev h)) else h)"

text \<open>The components that count: \<^verbatim>\<open>[c for c in p.split('/') if c and c != '.']\<close>.\<close>

definition path_parts :: "string \<Rightarrow> string list" where
  "path_parts p = filter (\<lambda>c. c \<noteq> [] \<and> c \<noteq> ''.'') (split_sep CHR ''/'' p)"

fun common_prefix :: "'a list \<Rightarrow> 'a list \<Rightarrow> 'a list" where
  "common_prefix (x # xs) (y # ys) = (if x = y then x # common_prefix xs ys else [])"
| "common_prefix _ _ = []"

text \<open>
  \<^verbatim>\<open>os.path.commonpath(paths)\<close> for a non-empty list of absolute paths (the only call
  passes at least two pruned, absolute paths): the common leading components of the
  least and the greatest component list.
\<close>

definition commonpath :: "string list \<Rightarrow> string" where
  "commonpath paths =
     (let split_paths = map path_parts paths;
          s1 = fold min (tl split_paths) (hd split_paths);
          s2 = fold max (tl split_paths) (hd split_paths)
      in ''/'' @ join_sep ''/'' (common_prefix s1 s2))"

text \<open>\<^verbatim>\<open>os.path.relpath(path, start)\<close> for a non-empty \<^verbatim>\<open>path\<close>.\<close>

definition relpath :: "string \<Rightarrow> string \<Rightarrow> string \<Rightarrow> string" where
  "relpath cwd path start =
     (let start_list = filter (\<lambda>x. x \<noteq> []) (split_sep CHR ''/'' (abspath cwd start));
          path_list = filter (\<lambda>x. x \<noteq> []) (split_sep CHR ''/'' (abspath cwd path));
          i = length (common_prefix start_list path_list);
          rel_list = replicate (length start_list - i) ''..'' @ drop i path_list
      in if rel_list = [] then ''.'' else foldl path_join (hd rel_list) (tl rel_list))"

subsection \<open>Path Resolver: \<^verbatim>\<open>prune_redundant_paths\<close> (lines 113-116)\<close>

definition prune_redundant_paths :: "string \<Rightarrow> string list \<Rightarrow> string list" where
  "prune_redundant_paths cwd paths =
     (if paths = [] then []
      else let sorted_paths = sort (remdups (map (abspath cwd) paths))
           in map snd (filter (\<lambda>(i, p). \<not> list_ex (\<lambda>parent. startswith p (parent @ ''/''))
                                                (take i sorted_paths))
                              (enumerate 0 sorted_paths)))"

text \<open>
  The spec's notion of containment, independent of the code's textual test: \<open>d\<close> is a
  proper descendant of \<open>p\<close> when both canonical forms have the same root (\<^verbatim>\<open>/\<close> or the
  \<^verbatim>\<open>//\<close> that POSIX keeps apart) and the components of \<open>p\<close>'s are a proper prefix of
  those of \<open>d\<close>'s.
\<close>

definition is_proper_descendant :: "string \<Rightarrow> string \<Rightarrow> string \<Rightarrow> bool" where
  "is_proper_descendant cwd p d =
     (initial_slashes (abspath cwd p) = initial_slashes (abspath cwd d)
      \<and> strict_prefix (path_parts (abspath cwd p)) (path_parts (abspath cwd d)))"

subsection \<open>Regular expressions of the monitors\<close>

text \<open>
  \<^verbatim>\<open>re.search\<close>: the match at the leftmost position that has one. The argument
  \<open>m\<close> is the match anchored at the start of its input, returning group 1.
\<close>

fun re_search :: "(string \<Rightarrow> 'a option) \<Rightarrow> string \<Rightarrow> 'a option" where
  "re_search m [] = m []"
| "re_search m (c # cs) = (case m (c # cs) of Some g \<Rightarrow> Some g | None \<Rightarrow> re_search m cs)"

text \<open>
  The lazy group \<^verbatim>\<open>(.*?)\<close> followed by a rest \<open>P\<close>: the shortest run of characters
  other than newline after which \<open>P\<close> matches.
\<close>

fun lazy_until :: "(string \<Rightarrow> bool) \<Rightarrow> string \<Rightarrow> string option" where
  "lazy_until P [] = (if P [] then Some [] else None)"
| "lazy_until P (c # cs) =
     (if P (c # cs) then Some []
      else if c = CHR 0x0A then None
      else map_option (Cons c) (lazy_until P cs))"

text \<open>\<^verbatim>\<open>tar_error_re.match\<close> with \<^verbatim>\<open>r"tar: (.*?): Cannot (?:open|read|stat)"\<close> (line 76).\<close>

definition tar_error_re :: "string \<Rightarrow> string option" where
  "tar_error_re s =
     (if startswith s ''tar: '' then
        lazy_until (\<lambda>r. startswith r '': Cannot open'' \<or> startswith r '': Cannot read''
                        \<or> startswith r '': Cannot stat'') (drop 5 s)
      else None)"

text \<open>
  \<^verbatim>\<open>percent_re\<close> = \<^verbatim>\<open>(\d+\.?\d*)[%]\<close> anchored: a non-empty run of digits, a dot if there
  is one, the digits after it, then the percent sign. The greedy runs are forced:
  giving back a digit or the dot puts a digit or the dot where \<^verbatim>\<open>%\<close> must stand.
\<close>

definition percent_re :: "string \<Rightarrow> string option" where
  "percent_re s =
     (let d1 = takeWhile is_digit s; r1 = dropWhile is_digit s
      in if d1 = [] then None
         else (case r1 of
                 [] \<Rightarrow> None
               | c # r2 \<Rightarrow>
                   if c = CHR ''.'' then
                     (let d2 = takeWhile is_digit r2; r3 = dropWhile is_digit r2
                      in if startswith r3 ''%'' then Some (d1 @ ''.'' @ d2) else None)
                   else if c = CHR ''%'' then Some d1 else None))"

text \<open>
  The whole of a string against \<^verbatim>\<open>\d+\.?\d*\w+\<close>, the group of \<^verbatim>\<open>speed_re\<close> before
  its unit (\<^verbatim>\<open>\w+i?\<close> matches what \<^verbatim>\<open>\w+\<close> matches). With a dot after the leading digits
  the rest is a non-empty run of word characters; without one the string is a run of at
  least two word characters that starts with a digit.
\<close>

definition speed_number :: "string \<Rightarrow> bool" where
  "speed_number t =
     (let a = takeWhile is_digit t; u = dropWhile is_digit t
      in a \<noteq> [] \<and>
         (case u of
            [] \<Rightarrow> 2 \<le> length t
          | c # v \<Rightarrow> if c = CHR ''.'' then v \<noteq> [] \<and> list_all is_word v
                     else list_all is_word u))"

text \<open>
  \<^verbatim>\<open>speed_re\<close> = \<^verbatim>\<open>\[\s*(\d+\.?\d*\w+i?B/s)\s*\]\<close> anchored. The group is made of word
  characters and at most one dot up to the slash of \<^verbatim>\<open>B/s\<close>, so it is the whole run of
  such characters after the whitespace, and that run ends in \<^verbatim>\<open>B\<close>.
\<close>

definition speed_re :: "string \<Rightarrow> string option" where
  "speed_re s =
     (case s of
        [] \<Rightarrow> None
      | c # s1 \<Rightarrow>
          if c \<noteq> CHR ''['' then None
          else let s2 = dropWhile is_space s1;
                   r = takeWhile (\<lambda>x. is_word x \<or> x = CHR ''.'') s2;
                   s3 = dropWhile (\<lambda>x. is_word x \<or> x = CHR ''.'') s2
               in if r \<noteq> [] \<and> last r = CHR ''B'' \<and> speed_number (butlast r)
                     \<and> startswith s3 ''/s''
                     \<and> startswith (dropWhile is_space (drop 2 s3)) '']''
                  then Some (r @ ''/s'') else None)"

text \<open>\<^verbatim>\<open>eta_re\<close> = \<^verbatim>\<open>ETA\s+([\d:]+)\<close> anchored.\<close>

definition eta_re :: "string \<Rightarrow> string option" where
  "eta_re s =
     (if startswith s ''ETA'' then
        (let s1 = drop 3 s; s2 = dropWhile is_space s1;
             g = takeWhile (\<lambda>x. is_digit x \<or> x = CHR '':'') s2
         in if s1 \<noteq> [] \<and> is_space (hd s1) \<and> g \<noteq> [] then Some g else None)
      else None)"

subsection \<open>\<^verbatim>\<open>float(text)\<close> formatted with \<^verbatim>\<open>:.1f\<close>\<close>

text \<open>
  The percent field is \<^verbatim>\<open>f"{float(percent.group(1)):.1f}"\<close>. The group is a decimal
  numeral \<open>N / 10^k\<close>; \<^verbatim>\<open>float\<close> rounds it to the nearest IEEE-754 double (53 bits, ties
  to even) and the format rounds that double to one decimal place (ties to even on the
  exact binary value). Both roundings are modelled exactly in integer arithmetic.
\<close>

text \<open>\<open>a / b\<close> rounded to the nearest natural number, ties to even (\<open>b > 0\<close>).\<close>

definition round_half_even :: "nat \<Rightarrow> nat \<Rightarrow> nat" where
  "round_half_even a b =
     (let fl = a div b; rm = a mod b
      in if 2 * rm < b then fl
         else if b < 2 * rm then fl + 1
         else if even fl then fl else fl + 1)"

fun bit_length :: "nat \<Rightarrow> nat" where
  "bit_length n = (if n = 0 then 0 else Suc (bit_length (n div 2)))"

declare bit_length.simps [simp del]

definition digit_char :: "nat \<Rightarrow> char" where
  "digit_char d = ''0123456789'' ! d"

text \<open>\<^verbatim>\<open>str(n)\<close> for a natural number.\<close>

fun nat_digits :: "nat \<Rightarrow> string" where
  "nat_digits n =
     (if n < 10 then [digit_char n] else nat_digits (n div 10) @ [digit_char (n mod 10)])"

declare nat_digits.simps [simp del]

definition digit_val :: "char \<Rightarrow> nat" where
  "digit_val c = of_char c - 48"

definition nat_of_digits :: "string \<Rightarrow> nat" where
  "nat_of_digits ds = foldl (\<lambda>a c. 10 * a + digit_val c) 0 ds"

text \<open>Is \<open>2^e \<le> n / den\<close>?\<close>

definition ge_pow2 :: "nat \<Rightarrow> nat \<Rightarrow> int \<Rightarrow> bool" where
  "ge_pow2 n den e = (if 0 \<le> e then den * 2 ^ nat e \<le> n else den \<le> n * 2 ^ nat (- e))"

text \<open>
  The double nearest to \<open>n / den\<close>, printed with one decimal place. \<open>e\<close> is the binary
  exponent (\<open>2^e \<le> n / den < 2^(e+1)\<close>), \<open>m\<close> the 53-bit significand. Below the normal
  range the value is under \<open>2^-1022\<close> and prints as \<^verbatim>\<open>0.0\<close>; from \<open>2^1024\<close> on it is
  \<^verbatim>\<open>inf\<close>.
\<close>

definition float_format_1f :: "nat \<Rightarrow> nat \<Rightarrow> string" where
  "float_format_1f n den =
     (if n = 0 then ''0.0''
      else let e0 = int (bit_length n) - int (bit_length den);
               e = (if ge_pow2 n den e0 then e0 else e0 - 1);
               sh = 52 - e;
               m = (if 0 \<le> sh then round_half_even (n * 2 ^ nat sh) den
                    else round_half_even n (den * 2 ^ nat (- sh)));
               t = (if 0 \<le> sh then round_half_even (10 * m) (2 ^ nat sh)
                    else 10 * m * 2 ^ nat (- sh))
           in if e < - 1022 then ''0.0''
              else if 1024 \<le> e \<or> (e = 1023 \<and> m = 2 ^ 53) then ''inf''
              else nat_digits (t div 10) @ ''.'' @ nat_digits (t mod 10))"

text \<open>A group of \<^verbatim>\<open>percent_re\<close> (digits, an optional dot, digits) through the format.\<close>

definition format_percent :: "string \<Rightarrow> string" where
  "format_percent g =
     (let d1 = takeWhile is_digit g; d2 = drop (Suc (length d1)) g
      in float_format_1f (nat_of_digits (d1 @ d2)) (10 ^ length d2))"

subsection \<open>Events and the state shared by a run\<close>

text \<open>
  What the server sends to its clients (\<^verbatim>\<open>socketio.emit\<close>) and prints for the operator.
  \<^verbatim>\<open>log_event(message, level)\<close> is the event \<open>LogMessage level message\<close>.
\<close>

datatype event =
    LogMessage string string
  | FileProcessed string
  | StdoutLine string
  | ProgressUpdate string string string
  | BackupComplete string "string list"
  | ExtractionComplete string

text \<open>
  RunState: the abort signal (\<^verbatim>\<open>error_event\<close>), the failed items
  (\<^verbatim>\<open>failed_files\<close>) and what was emitted.
\<close>

record run_state =
  abort_signal :: bool
  failed_items :: "string list"
  emitted :: "event list"

subsection \<open>Stage Monitor: \<^verbatim>\<open>monitor_process_stderr\<close> (lines 73-102)\<close>

definition critical_errors :: "string list" where
  "critical_errors = [''permission denied'', ''cannot open'']"

definition ignorable_errors :: "string list" where
  "ignorable_errors = [''broken pipe'', ''write error'']"

definition is_verbose_tar :: "string \<Rightarrow> string list \<Rightarrow> bool" where
  "is_verbose_tar stream_name args =
     (stream_name = ''tar'' \<and> list_ex (\<lambda>arg. CHR ''v'' \<in> set arg) args)"

text \<open>Lines 84-90: a bare path from a verbose archiver is an "item completed" event.\<close>

definition file_processed_events :: "string \<Rightarrow> event list" where
  "file_processed_events filename =
     (let depth = length (filter (\<lambda>c. c = CHR ''/'') filename);
          indent = concat (replicate depth ''  '');
          bn = (if basename filename = [] then filename else basename filename)
      in [FileProcessed filename,
          StdoutLine (indent @ [CHR 0xE2, CHR 0x9C, CHR 0x85] @ '' '' @ bn)])"

text \<open>
  The body of the loop for one line; the Boolean is True when the loop is left by
  \<^verbatim>\<open>break\<close>. \<open>error_event\<close> and \<open>failed_files_list\<close> say whether the caller passed the
  event and the list (both default to \<^verbatim>\<open>None\<close>); an event object is always truthy.
\<close>

definition monitor_line ::
  "string list \<Rightarrow> string \<Rightarrow> bool \<Rightarrow> string \<Rightarrow> bool \<Rightarrow> string option \<Rightarrow> string
     \<Rightarrow> run_state \<Rightarrow> bool \<times> run_state" where
  "monitor_line args stream_name error_event policy failed_files_list base_path line st =
     (let line_str = strip line
      in if line_str = [] then (False, st)
         else if is_verbose_tar stream_name args \<and> \<not> startswith line_str ''tar: '' then
           (False, st\<lparr>emitted := emitted st @ file_processed_events line_str\<rparr>)
         else
           let st1 =
                 (case base_path of
                    None \<Rightarrow> st
                  | Some base \<Rightarrow>
                      if stream_name = ''tar'' \<and> failed_files_list \<and> base \<noteq> [] then
                        (case tar_error_re line_str of
                           None \<Rightarrow> st
                         | Some g \<Rightarrow>
                             st\<lparr>failed_items := failed_items st @
                                   [path_join base (strip_with (\<lambda>c. c = CHR 0x27) g)]\<rparr>)
                      else st)
           in if list_ex (\<lambda>err. contains (lower line_str) err) ignorable_errors then (False, st1)
              else
                let st2 = st1\<lparr>emitted := emitted st1 @
                            [LogMessage ''stderr'' (''['' @ stream_name @ ''] '' @ line_str)]\<rparr>
                in if error_event \<and> policy = ''abort''
                      \<and> list_ex (\<lambda>err. contains (lower line_str) err) critical_errors
                   then (True, st2\<lparr>emitted := emitted st2 @
                                  [LogMessage ''error'' (''Critical error in '' @ [CHR 0x27]
                                     @ stream_name @ [CHR 0x27] @ '': '' @ line_str
                                     @ ''. Aborting.'')],
                                abort_signal := True\<rparr>)
                   else (False, st2))"

text \<open>The loop over the lines of the stage's diagnostic channel, up to end of stream.\<close>

fun monitor_lines :: "(string \<Rightarrow> run_state \<Rightarrow> bool \<times> run_state) \<Rightarrow> string list
     \<Rightarrow> run_state \<Rightarrow> run_state" where
  "monitor_lines body [] st = st"
| "monitor_lines body (line # rest) st =
     (case body line st of
        (True, st') \<Rightarrow> st'
      | (False, st') \<Rightarrow> monitor_lines body rest st')"

definition monitor_process_stderr ::
  "string list \<Rightarrow> string \<Rightarrow> bool \<Rightarrow> string \<Rightarrow> bool \<Rightarrow> string option \<Rightarrow> string list
     \<Rightarrow> run_state \<Rightarrow> run_state" where
  "monitor_process_stderr args stream_name error_event policy failed_files_list base_path
       lines st =
     monitor_lines (monitor_line args stream_name error_event policy failed_files_list base_path)
       lines st"

subsection \<open>Progress monitor: \<^verbatim>\<open>monitor_pv_progress\<close> (lines 104-111)\<close>

record snapshot =
  percent :: string
  speed :: string
  eta :: string

text \<open>Line 110: the snapshot of one line, each field with its placeholder.\<close>

definition progress_data :: "string \<Rightarrow> snapshot" where
  "progress_data line_str =
     \<lparr>percent = (case re_search percent_re line_str of
                    Some g \<Rightarrow> format_percent g | None \<Rightarrow> ''0.0''),
      speed = (case re_search speed_re line_str of Some g \<Rightarrow> g | None \<Rightarrow> ''--''),
      eta = (case re_search eta_re line_str of Some g \<Rightarrow> g | None \<Rightarrow> ''--:--'')\<rparr>"

text \<open>The loop: a snapshot is published only for a line whose throughput matched.\<close>

fun monitor_pv_progress :: "string list \<Rightarrow> event list \<Rightarrow> event list" where
  "monitor_pv_progress [] evs = evs"
| "monitor_pv_progress (line # rest) evs =
     (let d = progress_data line
      in monitor_pv_progress rest
           (if re_search speed_re line \<noteq> None
            then evs @ [ProgressUpdate (percent d) (speed d) (eta d)] else evs))"

subsection \<open>Configuration, environment and world\<close>

text \<open>
  The run configuration is a dictionary read with \<^verbatim>\<open>config.get\<close>; a key that is absent
  is \<open>None\<close>, a value is the text \<^verbatim>\<open>str\<close> gives it.
\<close>

record config =
  sources :: "string list"
  errorHandling :: "string option"
  showFileProgress :: "string option"
  encrypt :: "string option"
  encryptionMethod :: "string option"
  encryptionPassword :: "string option"
  gpgRecipient :: "string option"
  filename :: "string option"

text \<open>\<^verbatim>\<open>str(config.get(key)).lower() == 'true'\<close>\<close>

definition flag_true :: "string option \<Rightarrow> bool" where
  "flag_true v = (case v of None \<Rightarrow> False | Some t \<Rightarrow> lower t = ''true'')"

text \<open>\<^verbatim>\<open>not v\<close> for a value that is \<^verbatim>\<open>None\<close> or a string.\<close>

definition falsy :: "string option \<Rightarrow> bool" where
  "falsy v = (case v of None \<Rightarrow> True | Some t \<Rightarrow> t = [])"

datatype error =
    ValueError string
  | PermissionError string
  | FileNotFoundError string
  | RuntimeError string
  | OSError string
  | TypeError string

text \<open>\<^verbatim>\<open>str(e)\<close>\<close>

fun error_text :: "error \<Rightarrow> string" where
  "error_text (ValueError m) = m"
| "error_text (PermissionError m) = m"
| "error_text (FileNotFoundError m) = m"
| "error_text (RuntimeError m) = m"
| "error_text (OSError m) = m"
| "error_text (TypeError m) = m"

datatype proc_status = Running | Exited int

text \<open>
  A stage: the process behind a \<^verbatim>\<open>subprocess.Popen\<close> handle. \<open>term_sent\<close> records
  \<^verbatim>\<open>terminate()\<close>, \<open>waited\<close> that the parent has collected the exit status.
\<close>

record proc =
  p_args :: "string list"
  p_status :: proc_status
  term_sent :: bool
  waited :: bool

record world =
  spawned :: "proc list"
  files :: "string list"
  events :: "event list"
  du_calls :: nat

text \<open>What the external disk-usage query answers (\<^verbatim>\<open>subprocess.check_output\<close>, line 137).\<close>

datatype du_result = DuTimeout | DuExit int | DuUndecodable | DuOutput string

record env =
  getcwd :: string
  home_dir :: string
  has_tty :: bool
  readable :: "string \<Rightarrow> bool"
  root_node_cache :: "(string \<times> int) list"
  du_answer :: du_result
  stage_stderr :: "nat \<Rightarrow> string list"
  stage_exit :: "nat \<Rightarrow> int"
  exited_by_cleanup :: "nat \<Rightarrow> bool"
  stream_chunks :: "string list"
  abort_visible_after :: nat
  write_fails_at :: "nat option"

text \<open>
  The oracles of \<open>env\<close>: \<open>stage_stderr pid\<close> are the lines process \<open>pid\<close> writes to its
  diagnostic channel, \<open>stage_exit pid\<close> the status it exits with when left alone,
  \<open>exited_by_cleanup pid\<close> whether it has exited by itself when cleanup polls it,
  \<open>stream_chunks\<close> what successive \<^verbatim>\<open>pipe.read(8192)\<close> return before end of stream,
  \<open>abort_visible_after\<close> how many polls of \<^verbatim>\<open>error_event.is_set()\<close> by the executor
  come before the monitor's \<^verbatim>\<open>set()\<close>, and \<open>write_fails_at\<close> the index of the
  \<^verbatim>\<open>destination_stream.write\<close> that raises, if one does. Every process is assumed to
  exit when waited on.
\<close>

definition STDBUF_BIN :: string where "STDBUF_BIN = ''/data/data/com.termux/files/usr/bin/stdbuf''"
definition CAT_BIN :: string where "CAT_BIN = ''/data/data/com.termux/files/usr/bin/cat''"
definition TAR_BIN :: string where "TAR_BIN = ''/data/data/com.termux/files/usr/bin/tar''"
definition ZSTD_BIN :: string where "ZSTD_BIN = ''/data/data/com.termux/files/usr/bin/zstd''"
definition GPG_BIN :: string where "GPG_BIN = ''/data/data/com.termux/files/usr/bin/gpg''"
definition AGE_BIN :: string where "AGE_BIN = ''/data/data/com.termux/files/usr/bin/age''"
definition PV_BIN :: string where "PV_BIN = ''/data/data/com.termux/files/usr/bin/pv''"

definition BACKUPS_PATH :: "env \<Rightarrow> string" where
  "BACKUPS_PATH E = path_join (home_dir E) ''backups''"

definition TEMP_UPLOAD_PATH :: "env \<Rightarrow> string" where
  "TEMP_UPLOAD_PATH E = path_join (BACKUPS_PATH E) ''temp_uploads''"

definition emit :: "event \<Rightarrow> world \<Rightarrow> world" where
  "emit ev w = w\<lparr>events := events w @ [ev]\<rparr>"

definition log_event :: "string \<Rightarrow> string \<Rightarrow> world \<Rightarrow> world" where
  "log_event message level w = emit (LogMessage level message) w"

subsection \<open>Process handles\<close>

text \<open>\<^verbatim>\<open>subprocess.Popen(args, ...)\<close>: the new process is the last of \<open>spawned\<close>.\<close>

definition popen :: "string list \<Rightarrow> world \<Rightarrow> nat \<times> world" where
  "popen args w =
     (length (spawned w),
      w\<lparr>spawned := spawned w @
           [\<lparr>p_args = args, p_status = Running, term_sent = False, waited = False\<rparr>]\<rparr>)"

text \<open>
  \<^verbatim>\<open>proc.wait()\<close>: a running process exits, with \<open>-15\<close> (SIGTERM) if it was sent a
  termination request and with its own status otherwise.
\<close>

definition proc_wait :: "env \<Rightarrow> nat \<Rightarrow> world \<Rightarrow> int \<times> world" where
  "proc_wait E pid w =
     (let p = spawned w ! pid;
          code = (case p_status p of
                    Exited c \<Rightarrow> c
                  | Running \<Rightarrow> if term_sent p then - 15 else stage_exit E pid)
      in (code, w\<lparr>spawned := (spawned w)[pid := p\<lparr>p_status := Exited code, waited := True\<rparr>]\<rparr>))"

text \<open>\<^verbatim>\<open>proc.poll()\<close>: \<open>None\<close> while the process is alive.\<close>

definition proc_poll :: "env \<Rightarrow> nat \<Rightarrow> world \<Rightarrow> int option \<times> world" where
  "proc_poll E pid w =
     (let p = spawned w ! pid
      in case p_status p of
           Exited c \<Rightarrow> (Some c, w)
         | Running \<Rightarrow>
             if exited_by_cleanup E pid
             then (Some (stage_exit E pid),
                   w\<lparr>spawned := (spawned w)[pid := p\<lparr>p_status := Exited (stage_exit E pid),
                                                    waited := True\<rparr>]\<rparr>)
             else (None, w))"

definition proc_terminate :: "nat \<Rightarrow> world \<Rightarrow> world" where
  "proc_terminate pid w =
     (let p = spawned w ! pid
      in case p_status p of
           Exited c \<Rightarrow> w
         | Running \<Rightarrow> w\<lparr>spawned := (spawned w)[pid := p\<lparr>term_sent := True\<rparr>]\<rparr>)"

text \<open>
  \<^verbatim>\<open>{name: proc.wait() for name, proc in processes}\<close>: a dictionary keeps one value per
  key, the last one stored; \<open>AList.update\<close> does the same on an association list.
\<close>

fun wait_all :: "env \<Rightarrow> (string option \<times> nat) list \<Rightarrow> (string option \<times> int) list
     \<Rightarrow> world \<Rightarrow> (string option \<times> int) list \<times> world" where
  "wait_all E [] codes w = (codes, w)"
| "wait_all E ((name, pid) # rest) codes w =
     (let (code, w') = proc_wait E pid w
      in wait_all E rest (AList.update name code codes) w')"

text \<open>Cleanup (lines 264-266): terminate what is still alive, wait for every handle.\<close>

fun terminate_all :: "env \<Rightarrow> (string option \<times> nat) list \<Rightarrow> world \<Rightarrow> world" where
  "terminate_all E [] w = w"
| "terminate_all E ((name, pid) # rest) w =
     (let (polled, w1) = proc_poll E pid w;
          w2 = (if polled = None then proc_terminate pid w1 else w1);
          (code, w3) = proc_wait E pid w2
      in terminate_all E rest w3)"

subsection \<open>Size Estimator (lines 128-139 of \<^verbatim>\<open>build_backup_pipeline\<close>)\<close>

text \<open>
  \<^verbatim>\<open>int(token)\<close>: an optional sign, then digits, single underscores allowed between
  digits; \<open>None\<close> is \<^verbatim>\<open>ValueError\<close>.
\<close>

definition py_int :: "string \<Rightarrow> int option" where
  "py_int t =
     (let neg = startswith t ''-'';
          body = (if startswith t ''-'' \<or> startswith t ''+'' then tl t else t);
          groups = split_sep CHR ''_'' body
      in if list_all (\<lambda>g. g \<noteq> [] \<and> list_all is_digit g) groups
         then Some ((if neg then - 1 else 1) * int (nat_of_digits (concat groups)))
         else None)"

text \<open>\<^verbatim>\<open>int(line.split()[0])\<close>; \<open>None\<close> is \<^verbatim>\<open>IndexError\<close> or \<^verbatim>\<open>ValueError\<close>.\<close>

definition du_line_size :: "string \<Rightarrow> int option" where
  "du_line_size line = (case split_ws line of [] \<Rightarrow> None | t # _ \<Rightarrow> py_int t)"

fun sum_sizes :: "int option list \<Rightarrow> int option" where
  "sum_sizes [] = Some 0"
| "sum_sizes (None # rest) = None"
| "sum_sizes (Some v # rest) = map_option ((+) v) (sum_sizes rest)"

text \<open>\<^verbatim>\<open>sum(int(line.split()[0]) for line in output.strip().split('\n'))\<close>\<close>

definition parse_du_output :: "string \<Rightarrow> int option" where
  "parse_du_output out = sum_sizes (map du_line_size (split_sep CHR 0x0A (strip out)))"

text \<open>
  The disk-usage query inside its \<^verbatim>\<open>try\<close>/\<^verbatim>\<open>except Exception\<close>: \<open>Inr\<close> the total it
  assigns (0 when the output is empty and nothing is assigned), \<open>Inl\<close> the exception
  that is swallowed: a timeout, a non-zero exit status, output that is not UTF-8, or
  output that does not parse.
\<close>

fun du_total :: "du_result \<Rightarrow> string + int" where
  "du_total DuTimeout = Inl ''timed out after 30 seconds''"
| "du_total (DuExit c) = Inl ''returned non-zero exit status''"
| "du_total DuUndecodable = Inl ''codec can not decode''"
| "du_total (DuOutput out) =
     (if out = [] then Inr 0
      else case parse_du_output out of
             None \<Rightarrow> Inl ''invalid literal or index out of range''
           | Some t \<Rightarrow> Inr t)"

text \<open>
  The size cache as the dictionary \<^verbatim>\<open>cache_map\<close> (line 128): one entry per node id, a
  later node replacing an earlier one with the same id.
\<close>

definition cache_map :: "env \<Rightarrow> (string \<times> int) list" where
  "cache_map E = fold (\<lambda>(k, v) m. AList.update k v m) (root_node_cache E) []"

definition estimate_total_size :: "env \<Rightarrow> string list \<Rightarrow> world \<Rightarrow> int \<times> world" where
  "estimate_total_size E pruned_sources w =
     (if list_all (\<lambda>p. map_of (cache_map E) p \<noteq> None) pruned_sources
      then (sum_list (map (\<lambda>p. case map_of (cache_map E) p of Some v \<Rightarrow> v | None \<Rightarrow> 0)
                          pruned_sources), w)
      else case du_total (du_answer E) of
             Inr t \<Rightarrow> (t, w\<lparr>du_calls := Suc (du_calls w)\<rparr>)
           | Inl why \<Rightarrow>
               (0, log_event (''Could not calculate total size (often OK): '' @ why) ''warn''
                     (w\<lparr>du_calls := Suc (du_calls w)\<rparr>)))"

subsection \<open>Pipeline Builder: \<^verbatim>\<open>build_backup_pipeline\<close> (lines 119-185)\<close>

text \<open>
  What the builder returns: the handle whose output is the final stream, the named
  handles, and the shared RunState (\<^verbatim>\<open>error_event\<close>, \<^verbatim>\<open>failed_files\<close>) as the archiver's
  monitor leaves it once it has read the archiver's diagnostics; \<open>monitor_events\<close> are
  the events of the monitor threads, one list per thread.
\<close>

record pipeline =
  final_proc :: nat
  processes :: "(string option \<times> nat) list"
  monitor_outcome :: run_state
  monitor_events :: "event list list"
  total_size :: int
  tar_cmd :: "string list"
  pv_cmd :: "string list"

definition show_int :: "int \<Rightarrow> string" where
  "show_int i = (if i < 0 then ''-'' @ nat_digits (nat (- i)) else nat_digits (nat i))"

text \<open>The text of a list of paths, as \<^verbatim>\<open>repr\<close> prints paths without quotes or escapes.\<close>

definition repr_paths :: "string list \<Rightarrow> string" where
  "repr_paths ps = ''['' @ join_sep '', '' (map (\<lambda>p. [CHR 0x27] @ p @ [CHR 0x27]) ps) @ '']''"

definition repr_codes :: "(string option \<times> int) list \<Rightarrow> string" where
  "repr_codes cs =
     ''{'' @ join_sep '', ''
        (map (\<lambda>(name, code).
                (case name of None \<Rightarrow> ''None'' | Some n \<Rightarrow> [CHR 0x27] @ n @ [CHR 0x27])
                @ '': '' @ show_int code) cs) @ ''}''"

text \<open>Lines 141-142: the directory the archiver changes to and the paths relative to it.\<close>

definition common_base_of :: "string list \<Rightarrow> string" where
  "common_base_of pruned_sources =
     (if 1 < length pruned_sources then commonpath pruned_sources
      else dirname (hd pruned_sources))"

text \<open>Lines 143-152: the two command lines that depend on the configuration.\<close>

definition error_policy_of :: "config \<Rightarrow> string" where
  "error_policy_of cfg = (case errorHandling cfg of None \<Rightarrow> ''ignore'' | Some v \<Rightarrow> v)"

definition make_tar_cmd :: "env \<Rightarrow> config \<Rightarrow> string list \<Rightarrow> string list" where
  "make_tar_cmd E cfg pruned_sources =
     (let common_base = common_base_of pruned_sources;
          relative_sources = map (\<lambda>p. relpath (getcwd E) p common_base) pruned_sources;
          tar_verb = (if flag_true (showFileProgress cfg) then ''v'' else [])
      in [STDBUF_BIN, ''-oL'', TAR_BIN, ''-ch'' @ tar_verb @ ''f'', ''-'']
         @ (if error_policy_of cfg = ''ignore'' then [''--ignore-failed-read''] else [])
         @ [''-C'', common_base] @ relative_sources)"

definition make_pv_cmd :: "int \<Rightarrow> string list" where
  "make_pv_cmd tsize =
     [PV_BIN, ''-f'', ''-p'', ''-t'', ''-e'', ''-r'', ''-b'', ''-B'', ''256k'']
     @ (if 0 < tsize then [''-s'', show_int tsize] else [])"

text \<open>
  Lines 177-185: the monitors are started and the handles returned. The archiver's
  monitor gets the event, the policy, the list and the base path; the others run with
  the defaults.
\<close>

definition start_monitors :: "env \<Rightarrow> config \<Rightarrow> string list \<Rightarrow> int \<Rightarrow> nat \<Rightarrow> nat \<Rightarrow> nat
     \<Rightarrow> nat \<Rightarrow> (string option \<times> nat) list \<Rightarrow> world \<Rightarrow> pipeline" where
  "start_monitors E cfg pruned_sources tsize tar_proc pv_proc zstd_proc fin procs w =
     (let fresh = \<lparr>abort_signal = False, failed_items = [], emitted = []\<rparr>;
          tar_mon = monitor_process_stderr (p_args (spawned w ! tar_proc)) ''tar'' True
                      (error_policy_of cfg) True (Some (common_base_of pruned_sources))
                      (stage_stderr E tar_proc) fresh;
          generic = (\<lambda>pid name. emitted (monitor_process_stderr (p_args (spawned w ! pid)) name
                      False ''ignore'' False None (stage_stderr E pid) fresh))
      in \<lparr>final_proc = fin, processes = procs,
          monitor_outcome = tar_mon,
          monitor_events =
            [emitted tar_mon, monitor_pv_progress (stage_stderr E pv_proc) [],
             generic zstd_proc ''zstd'']
            @ (if fin \<noteq> zstd_proc then [generic fin (hd (p_args (spawned w ! fin)))] else []),
          total_size = tsize,
          tar_cmd = p_args (spawned w ! tar_proc),
          pv_cmd = p_args (spawned w ! pv_proc)\<rparr>)"

text \<open>Lines 141-185: the stages are spawned, then the encryption settings are read.\<close>

definition spawn_backup_stages :: "env \<Rightarrow> config \<Rightarrow> string list \<Rightarrow> int \<Rightarrow> world
     \<Rightarrow> world \<times> (error + pipeline)" where
  "spawn_backup_stages E cfg pruned_sources tsize w =
     (let (tar_proc, w1) = popen (make_tar_cmd E cfg pruned_sources) w;
          (pv_proc, w2) = popen (make_pv_cmd tsize) w1;
          (zstd_proc, w3) = popen [ZSTD_BIN, ''-T0''] w2;
          procs = [(Some ''tar'', tar_proc), (Some ''pv'', pv_proc), (Some ''zstd'', zstd_proc)];
          built = (\<lambda>fin ps wf. (wf, Inr (start_monitors E cfg pruned_sources tsize
                                           tar_proc pv_proc zstd_proc fin ps wf)))
      in if flag_true (encrypt cfg) then
           (let method = encryptionMethod cfg
            in if method = Some ''age'' then
                 (if falsy (encryptionPassword cfg)
                  then (w3, Inl (ValueError ''Age encryption requires a passphrase.''))
                  else let (fin, w4) = popen [AGE_BIN, ''-p'', ''-o'', ''-''] w3
                       in built fin (procs @ [(method, fin)]) w4)
               else if method = Some ''gpg'' then
                 (case gpgRecipient cfg of
                    None \<Rightarrow> (w3, Inl (ValueError ''GPG encryption requires a recipient.''))
                  | Some recipient \<Rightarrow>
                      if recipient = []
                      then (w3, Inl (ValueError ''GPG encryption requires a recipient.''))
                      else let (fin, w4) = popen [GPG_BIN, ''--encrypt'', ''--recipient'',
                                                   recipient, ''--output'', ''-''] w3
                           in built fin (procs @ [(method, fin)]) w4)
               else built zstd_proc (procs @ [(method, zstd_proc)]) w3)
         else built zstd_proc procs w3)"

definition build_backup_pipeline :: "env \<Rightarrow> config \<Rightarrow> world \<Rightarrow> world \<times> (error + pipeline)" where
  "build_backup_pipeline E cfg w =
     (if sources cfg = [] then (w, Inl (ValueError ''No source directories selected.''))
      else let pruned_sources = prune_redundant_paths (getcwd E) (sources cfg)
           in if pruned_sources = []
              then (w, Inl (ValueError ''Source list is empty after pruning.''))
              else let w1 = log_event (''Pruned source list to: '' @ repr_paths pruned_sources)
                              ''info'' w
                   in case find (\<lambda>path. \<not> readable E path) pruned_sources of
                        Some path \<Rightarrow>
                          (w1, Inl (PermissionError (''Permission Denied for '' @ [CHR 0x27]
                                                      @ path @ [CHR 0x27] @ ''.'')))
                      | None \<Rightarrow>
                          let (tsize, w2) = estimate_total_size E pruned_sources w1
                          in spawn_backup_stages E cfg pruned_sources tsize w2)"

subsection \<open>Pipeline Executor: \<^verbatim>\<open>run_backup_task\<close> (lines 238-266)\<close>

text \<open>
  The destination: a file object has a \<^verbatim>\<open>name\<close>, the outbound stream of a download has
  none (\<^verbatim>\<open>hasattr(destination_stream, 'name')\<close>, line 240).
\<close>

datatype destination = NamedFile string | BrowserStream

definition output_path_of :: "destination \<Rightarrow> string" where
  "output_path_of dest = (case dest of NamedFile n \<Rightarrow> n | BrowserStream \<Rightarrow> ''browser_stream'')"

text \<open>
  The copy loop (lines 244-247). \<open>poll k\<close> is what the \<open>k\<close>-th poll of the abort signal
  returns. The result is the exception of a failed write if there was one, the chunks
  written, and the number of polls made.
\<close>

fun copy_loop :: "(nat \<Rightarrow> bool) \<Rightarrow> nat option \<Rightarrow> nat \<Rightarrow> string list \<Rightarrow> string list
     \<Rightarrow> error option \<times> string list \<times> nat" where
  "copy_loop poll wfail k [] written = (None, written, Suc k)"
| "copy_loop poll wfail k (chunk # rest) written =
     (if poll k then (None, written, Suc k)
      else if wfail = Some (length written)
           then (Some (OSError ''write failed''), written, Suc k)
           else copy_loop poll wfail (Suc k) rest (written @ [chunk]))"

record task_result =
  pipeline_success :: bool
  written :: "string list"

text \<open>The \<^verbatim>\<open>except Exception\<close> clause (lines 258-260).\<close>

definition report_error :: "error \<Rightarrow> string list \<Rightarrow> world \<Rightarrow> world" where
  "report_error e failed_files w =
     emit (BackupComplete ''error'' failed_files)
       (log_event (''A critical error occurred: '' @ error_text e) ''error'' w)"

text \<open>The \<^verbatim>\<open>finally\<close> clause (lines 261-266).\<close>

definition cleanup :: "env \<Rightarrow> string \<Rightarrow> bool \<Rightarrow> (string option \<times> nat) list \<Rightarrow> world \<Rightarrow> world" where
  "cleanup E output_path success procs w =
     terminate_all E procs
       (if \<not> success \<and> output_path \<noteq> ''browser_stream'' \<and> output_path \<in> set (files w)
        then log_event ''Removed incomplete file.'' ''warn''
               (w\<lparr>files := removeAll output_path (files w)\<rparr>)
        else w)"

text \<open>Lines 249-257: the exit codes are collected and reconciled.\<close>

definition tar_code_of :: "(string option \<times> int) list \<Rightarrow> int" where
  "tar_code_of exit_codes = (case map_of exit_codes (Some ''tar'') of Some c \<Rightarrow> c | None \<Rightarrow> 0)"

definition other_codes_ok :: "(string option \<times> int) list \<Rightarrow> bool" where
  "other_codes_ok exit_codes =
     list_all (\<lambda>(name, code). code = 0) (filter (\<lambda>(name, code). name \<noteq> Some ''tar'') exit_codes)"

text \<open>
  \<^verbatim>\<open>error_event.is_set()\<close> at the executor's \<open>k\<close>-th poll: the archiver's monitor sets the
  signal, and the executor has polled \<open>abort_visible_after\<close> times before it does.
\<close>

definition is_set :: "env \<Rightarrow> pipeline \<Rightarrow> nat \<Rightarrow> bool" where
  "is_set E pl k = (abort_signal (monitor_outcome pl) \<and> abort_visible_after E \<le> k)"

definition run_backup_task :: "env \<Rightarrow> config \<Rightarrow> destination \<Rightarrow> world \<Rightarrow> world \<times> task_result" where
  "run_backup_task E cfg dest w =
     (let output_path = output_path_of dest
      in case build_backup_pipeline E cfg w of
           (w1, Inl e) \<Rightarrow>
             (cleanup E output_path False [] (report_error e [] w1),
              \<lparr>pipeline_success = False, written = []\<rparr>)
         | (w1, Inr pl) \<Rightarrow>
             let failed_files = failed_items (monitor_outcome pl);
                 failure = (\<lambda>e data wf.
                   (cleanup E output_path False (processes pl) (report_error e failed_files wf),
                    \<lparr>pipeline_success = False, written = data\<rparr>))
             in case copy_loop (is_set E pl) (write_fails_at E) 0 (stream_chunks E) [] of
                  (Some e, data, k) \<Rightarrow> failure e data w1
                | (None, data, k) \<Rightarrow>
                    if is_set E pl k
                    then failure (RuntimeError ''Backup aborted due to critical error.'') data w1
                    else
                      let (exit_codes, w2) = wait_all E (processes pl) [] w1;
                          tar_code = tar_code_of exit_codes
                      in if (tar_code = 0 \<or> tar_code = 1) \<and> other_codes_ok exit_codes
                         then
                           (cleanup E output_path True (processes pl)
                              (emit (BackupComplete ''success'' failed_files)
                                 (log_event ''Backup task completed successfully!'' ''success''
                                    (if tar_code = 1
                                     then log_event ''tar finished with warnings.'' ''warn'' w2
                                     else w2))),
                            \<lparr>pipeline_success = True, written = data\<rparr>)
                         else failure (RuntimeError (''Backup failed. Exit codes: ''
                                                      @ repr_codes exit_codes)) data w2)"

text \<open>
  What a run reports: the statuses of the completion events (\<^verbatim>\<open>backup_complete\<close>,
  \<^verbatim>\<open>extraction_complete\<close>) among the events it emitted.
\<close>

fun completion_status :: "event \<Rightarrow> string option" where
  "completion_status (BackupComplete st ff) = Some st"
| "completion_status (ExtractionComplete st) = Some st"
| "completion_status _ = None"

definition reported :: "event list \<Rightarrow> string list" where
  "reported evs = List.map_filter completion_status evs"

subsection \<open>Restore: \<^verbatim>\<open>build_extraction_pipeline\<close> and \<^verbatim>\<open>run_extraction_task\<close> (lines 187-285)\<close>

definition build_extraction_pipeline :: "env \<Rightarrow> config \<Rightarrow> bool \<Rightarrow> world
     \<Rightarrow> world \<times> (error + (string option \<times> nat) list)" where
  "build_extraction_pipeline E cfg is_uploaded_file w =
     (case filename cfg of
        None \<Rightarrow> (w, Inl (TypeError ''expected str, bytes or os.PathLike object, not NoneType''))
      | Some fname \<Rightarrow>
          let source_path = path_join (if is_uploaded_file then TEMP_UPLOAD_PATH E
                                       else BACKUPS_PATH E) fname
          in if source_path \<notin> set (files w)
             then (w, Inl (FileNotFoundError (''Backup file not found: '' @ source_path)))
             else
               let w0 = (if has_tty E then w
                         else log_event ''Could not determine TTY for prompts.'' ''warn'' w);
                   (cat_proc, w1) = popen [CAT_BIN, source_path] w0;
                   (decrypt, w2) =
                     (if endswith fname ''.age''
                      then (let (age_proc, w') = popen [AGE_BIN, ''--decrypt''] w1
                            in ([(Some ''age'', age_proc)], w'))
                      else if endswith fname ''.gpg''
                      then (let (gpg_proc, w') = popen [GPG_BIN, ''--decrypt''] w1
                            in ([(Some ''gpg'', gpg_proc)], w'))
                      else ([], w1));
                   (zstd_proc, w3) = popen [ZSTD_BIN @ ''cat''] w2;
                   tar_verb = (if flag_true (showFileProgress cfg) then ''v'' else []);
                   (tar_proc, w4) = popen [TAR_BIN, ''-x'' @ tar_verb @ ''f'', ''-''] w3
               in (w4, Inr ([(Some ''cat'', cat_proc)] @ decrypt
                            @ [(Some ''zstd'', zstd_proc), (Some ''tar'', tar_proc)])))"

text \<open>
  \<^verbatim>\<open>run_extraction_task\<close>. The temporary file's path is computed before the \<^verbatim>\<open>try\<close>, so
  an uploaded restore with no file name raises out of the function (\<open>Some\<close> in the
  second component).
\<close>

definition run_extraction_task :: "env \<Rightarrow> config \<Rightarrow> bool \<Rightarrow> world \<Rightarrow> world \<times> error option" where
  "run_extraction_task E cfg is_uploaded_file w =
     (if is_uploaded_file \<and> filename cfg = None
      then (w, Some (TypeError ''expected str, bytes or os.PathLike object, not NoneType''))
      else
        let temp_file = (if is_uploaded_file
                         then map_option (path_join (TEMP_UPLOAD_PATH E)) (filename cfg)
                         else None);
            w3 = (case build_extraction_pipeline E cfg is_uploaded_file w of
                    (w1, Inl e) \<Rightarrow>
                      emit (ExtractionComplete ''error'')
                        (log_event (''A critical error during extraction: '' @ error_text e)
                           ''error'' w1)
                  | (w1, Inr procs) \<Rightarrow>
                      let (final_code, w1') = proc_wait E (snd (last procs)) w1;
                          (exit_codes, w2) = wait_all E procs [] w1'
                      in if list_all (\<lambda>(name, code). code = 0) exit_codes
                         then emit (ExtractionComplete ''success'')
                                (log_event ''Extraction completed successfully!'' ''success'' w2)
                         else emit (ExtractionComplete ''error'')
                                (log_event (''Extraction failed. Exit codes: ''
                                            @ repr_codes exit_codes) ''error'' w2))
        in (case temp_file of
              None \<Rightarrow> (w3, None)
            | Some tf \<Rightarrow>
                if tf \<in> set (files w3)
                then (log_event ''Cleaned up temporary file.'' ''info''
                        (w3\<lparr>files := removeAll tf (files w3)\<rparr>), None)
                else (w3, None)))"

subsection \<open>Canonical paths\<close>

text \<open>
  A component of a normalised absolute path: not empty, not \<^verbatim>\<open>.\<close>, not \<^verbatim>\<open>..\<close>, without a
  slash. A canonical path is one or two slashes followed by such components joined by
  slashes: the form of every result of \<open>abspath\<close>.
\<close>

definition good_part :: "string \<Rightarrow> bool" where
  "good_part w = (w \<noteq> [] \<and> w \<noteq> ''.'' \<and> w \<noteq> ''..'' \<and> CHR ''/'' \<notin> set w)"

definition canonical :: "string \<Rightarrow> bool" where
  "canonical r = (\<exists>k cs. r = replicate k CHR ''/'' @ join_sep ''/'' cs \<and> (k = 1 \<or> k = 2)
                          \<and> list_all good_part cs)"

text \<open>The new events of a run that started in \<open>w\<close> and ended in \<open>w'\<close>.\<close>

definition new_events :: "world \<Rightarrow> world \<Rightarrow> event list" where
  "new_events w w' = drop (length (events w)) (events w')"

text \<open>
  A handle is settled when nothing but the process itself has decided its exit status:
  it is still running and was never sent a termination request, or its recorded status
  is the one it exits with by itself.
\<close>

definition settled :: "env \<Rightarrow> world \<Rightarrow> nat \<Rightarrow> bool" where
  "settled E w pid =
     (pid < length (spawned w) \<and>
      (case p_status (spawned w ! pid) of
         Running \<Rightarrow> \<not> term_sent (spawned w ! pid)
       | Exited c \<Rightarrow> c = stage_exit E pid))"

text \<open>A handle as \<open>popen\<close> creates it.\<close>

definition fresh_proc :: "string list \<Rightarrow> proc" where
  "fresh_proc args = \<lparr>p_args = args, p_status = Running, term_sent = False, waited = False\<rparr>"

text \<open>
  The stages of a restore, in pipeline order, each with its name in \<^verbatim>\<open>processes\<close> and its
  command line: the reader, the decryptor if the file name ends in \<^verbatim>\<open>.age\<close> or \<^verbatim>\<open>.gpg\<close>,
  the decompressor and the extractor.
\<close>

definition extraction_stages :: "env \<Rightarrow> config \<Rightarrow> bool \<Rightarrow> string
     \<Rightarrow> (string option \<times> string list) list" where
  "extraction_stages E cfg is_uploaded_file fname =
     [(Some ''cat'', [CAT_BIN, path_join (if is_uploaded_file then TEMP_UPLOAD_PATH E
                                          else BACKUPS_PATH E) fname])]
     @ (if endswith fname ''.age'' then [(Some ''age'', [AGE_BIN, ''--decrypt''])]
        else if endswith fname ''.gpg'' then [(Some ''gpg'', [GPG_BIN, ''--decrypt''])]
        else [])
     @ [(Some ''zstd'', [ZSTD_BIN @ ''cat'']),
        (Some ''tar'', [TAR_BIN, ''-x'' @ (if flag_true (showFileProgress cfg) then ''v'' else [])
                                  @ ''f'', ''-''])]"

subsection \<open>Sample inputs\<close>

text \<open>
  An environment in which nothing goes wrong (every path is readable, every stage is
  silent and exits with 0, the stream holds two chunks), a configuration with no key
  set, and a world with no process and no file. The examples below vary them.
\<close>

definition quiet_env :: env where
  "quiet_env =
     \<lparr>getcwd = ''/home'', home_dir = ''/home'', has_tty = True, readable = (\<lambda>path. True),
      root_node_cache = [], du_answer = DuOutput [],
      stage_stderr = (\<lambda>pid. []), stage_exit = (\<lambda>pid. 0),
      exited_by_cleanup = (\<lambda>pid. False), stream_chunks = [''chunk1'', ''chunk2''],
      abort_visible_after = 0, write_fails_at = None\<rparr>"

definition no_config :: config where
  "no_config =
     \<lparr>sources = [], errorHandling = None, showFileProgress = None, encrypt = None,
      encryptionMethod = None, encryptionPassword = None, gpgRecipient = None,
      filename = None\<rparr>"

definition empty_world :: world where
  "empty_world = \<lparr>spawned = [], files = [], events = [], du_calls = 0\<rparr>"

text \<open>
  The size-estimation step fails when the disk-usage query times out, exits with a
  non-zero status, or prints what cannot be decoded or parsed.
\<close>

fun du_failed :: "du_result \<Rightarrow> bool" where
  "du_failed DuTimeout = True"
| "du_failed (DuExit c) = True"
| "du_failed DuUndecodable = True"
| "du_failed (DuOutput out) = (out \<noteq> [] \<and> parse_du_output out = None)"

text \<open>Every pruned source has an entry in the size cache (line 129).\<close>

definition all_cached :: "env \<Rightarrow> string list \<Rightarrow> bool" where
  "all_cached E pruned_sources = list_all (\<lambda>p. map_of (cache_map E) p \<noteq> None) pruned_sources"

text \<open>
  The handles \<^verbatim>\<open>processes\<close> of a backup whose first stage is process \<open>n\<close>: the three
  fixed stages and, when encryption is requested, the entry named by the method. Only
  the methods \<^verbatim>\<open>age\<close> and \<^verbatim>\<open>gpg\<close> spawn a fourth process; with any other method the entry
  holds the compressor's handle again.
\<close>

definition backup_processes :: "config \<Rightarrow> nat \<Rightarrow> (string option \<times> nat) list" where
  "backup_processes cfg n =
     [(Some ''tar'', n), (Some ''pv'', n + 1), (Some ''zstd'', n + 2)]
     @ (if flag_true (encrypt cfg)
        then [(encryptionMethod cfg,
               if encryptionMethod cfg = Some ''age'' \<or> encryptionMethod cfg = Some ''gpg''
               then n + 3 else n + 2)]
        else [])"

text \<open>The command line of the encryptor, if one is spawned.\<close>

definition encryptor_cmd :: "config \<Rightarrow> string list option" where
  "encryptor_cmd cfg =
     (if \<not> flag_true (encrypt cfg) then None
      else if encryptionMethod cfg = Some ''age'' then Some [AGE_BIN, ''-p'', ''-o'', ''-'']
      else if encryptionMethod cfg = Some ''gpg''
      then (case gpgRecipient cfg of
              None \<Rightarrow> None
            | Some r \<Rightarrow> Some [GPG_BIN, ''--encrypt'', ''--recipient'', r, ''--output'', ''-''])
      else None)"

text \<open>The configuration error of the builder, if it raises one (lines 164 and 171).\<close>

definition configuration_error :: "config \<Rightarrow> error option" where
  "configuration_error cfg =
     (if \<not> flag_true (encrypt cfg) then None
      else if encryptionMethod cfg = Some ''age'' \<and> falsy (encryptionPassword cfg)
      then Some (ValueError ''Age encryption requires a passphrase.'')
      else if encryptionMethod cfg = Some ''gpg'' \<and> falsy (gpgRecipient cfg)
      then Some (ValueError ''GPG encryption requires a recipient.'')
      else None)"

section \<open>Properties\<close>

subsection \<open>Splitting, joining and normalising\<close>

lemma split_sep_not_Nil: "split_sep c s \<noteq> []"
  by (induction s) auto

lemma split_sep_free: "w \<in> set (split_sep c s) \<Longrightarrow> c \<notin> set w"
proof (induction s arbitrary: w)
  case Nil
  then show ?case by simp
next
  case (Cons x xs)
  show ?case
  proof (cases "x = c")
    case True
    with Cons show ?thesis by auto
  next
    case False
    obtain h t where ht: "split_sep c xs = h # t"
      using split_sep_not_Nil [of c xs] by (cases "split_sep c xs") auto
    with Cons False show ?thesis by auto
  qed
qed

lemma split_sep_single: "c \<notin> set w \<Longrightarrow> split_sep c w = [w]"
  by (induction w) auto

lemma split_sep_append: "c \<notin> set w \<Longrightarrow> split_sep c (w @ c # rest) = w # split_sep c rest"
  by (induction w) auto

lemma split_join:
  "cs \<noteq> [] \<Longrightarrow> \<forall>w\<in>set cs. c \<notin> set w \<Longrightarrow> split_sep c (join_sep [c] cs) = cs"
proof (induction "[c]" cs rule: join_sep.induct)
  case 1
  then show ?case by simp
next
  case (2 x)
  then show ?case by (simp add: split_sep_single)
next
  case (3 x y ys)
  then show ?case by (simp add: split_sep_append)
qed

lemma norm_comps_good:
  "0 < nsl \<Longrightarrow> \<forall>w\<in>set new. good_part w \<Longrightarrow> \<forall>w\<in>set comps. CHR ''/'' \<notin> set w
   \<Longrightarrow> w \<in> set (norm_comps nsl new comps) \<Longrightarrow> good_part w"
proof (induction nsl new comps rule: norm_comps.induct)
  case (1 nsl new_comps)
  then show ?case by simp
next
  case (2 nsl new_comps cpt comps)
  have bl: "\<forall>w\<in>set (butlast new_comps). good_part w"
    using 2(6) by (auto dest: in_set_butlastD)
  have nolast: "new_comps \<noteq> [] \<Longrightarrow> last new_comps \<noteq> ''..''"
    using 2(6) by (auto simp: good_part_def dest!: last_in_set)
  show ?case
  proof (cases "cpt = [] \<or> cpt = ''.''")
    case True
    with 2 show ?thesis by auto
  next
    case False
    show ?thesis
    proof (cases "cpt = ''..''")
      case True
      with 2 False bl nolast show ?thesis by (auto split: if_splits)
    next
      case ndd: False
      have "\<forall>w\<in>set (new_comps @ [cpt]). good_part w"
        using 2(6,7) False ndd by (auto simp: good_part_def)
      with 2 False ndd show ?thesis by auto
    qed
  qed
qed

lemma norm_comps_id: "\<forall>w\<in>set comps. good_part w \<Longrightarrow> norm_comps nsl new comps = new @ comps"
  by (induction comps arbitrary: new) (auto simp: good_part_def)

lemma join_no_leading_slash:
  "\<forall>w\<in>set cs. good_part w \<Longrightarrow> \<not> prefix ''/'' (join_sep ''/'' cs)"
proof (cases cs)
  case Nil
  then show ?thesis by simp
next
  case (Cons x xs)
  assume g: "\<forall>w\<in>set cs. good_part w"
  with Cons obtain a as where x: "x = a # as" and a: "a \<noteq> CHR ''/''"
    by (cases x) (auto simp: good_part_def)
  show ?thesis using Cons x a by (cases xs) auto
qed

lemma initial_slashes_abs: "isabs q \<Longrightarrow> initial_slashes q = 1 \<or> initial_slashes q = 2"
  by (auto simp: isabs_def initial_slashes_def)

lemma normpath_abs_canonical:
  assumes "isabs q"
  shows "canonical (normpath q)"
proof -
  let ?k = "initial_slashes q"
  let ?cs = "norm_comps ?k [] (split_sep CHR ''/'' q)"
  have k: "?k = 1 \<or> ?k = 2" using assms by (rule initial_slashes_abs)
  have ne: "q \<noteq> []" using assms by (auto simp: isabs_def startswith_def)
  have good: "\<forall>w\<in>set ?cs. good_part w"
  proof
    fix w assume "w \<in> set ?cs"
    moreover have "0 < ?k" using k by auto
    moreover have "\<forall>w\<in>set (split_sep CHR ''/'' q). CHR ''/'' \<notin> set w"
      by (auto dest: split_sep_free)
    ultimately show "good_part w"
      using norm_comps_good [of ?k "[]" "split_sep CHR ''/'' q" w] by simp
  qed
  have "normpath q = replicate ?k CHR ''/'' @ join_sep ''/'' ?cs"
    using ne k by (auto simp add: normpath_def Let_def)
  with k good show ?thesis
    unfolding canonical_def list_all_iff by blast
qed

lemma normpath_canonical:
  assumes "canonical r"
  shows "normpath r = r"
proof -
  from assms obtain k cs where r: "r = replicate k CHR ''/'' @ join_sep ''/'' cs"
    and k: "k = 1 \<or> k = 2" and good: "\<forall>w\<in>set cs. good_part w"
    unfolding canonical_def list_all_iff by blast
  let ?j = "join_sep ''/'' cs"
  have nl: "\<not> prefix ''/'' ?j" using good by (rule join_no_leading_slash)
  have isl: "initial_slashes r = k"
    using k nl unfolding r initial_slashes_def startswith_def
    by (auto simp: numeral_2_eq_2)
  have free: "\<forall>w\<in>set cs. CHR ''/'' \<notin> set w" using good by (auto simp: good_part_def)
  have sj: "norm_comps k [] (split_sep CHR ''/'' ?j) = cs"
  proof (cases "cs = []")
    case True
    then show ?thesis by simp
  next
    case False
    then have "split_sep CHR ''/'' ?j = cs" using free split_join [of cs "CHR ''/''"] by simp
    then show ?thesis using good by (simp add: norm_comps_id)
  qed
  have sp: "norm_comps k [] (split_sep CHR ''/'' r) = cs"
    using k sj unfolding r by (auto simp: numeral_2_eq_2)
  have "r \<noteq> []" using k unfolding r by auto
  then show ?thesis
    using isl sp r by (simp add: normpath_def Let_def)
qed

lemma canonical_isabs: "canonical r \<Longrightarrow> isabs r"
  unfolding canonical_def isabs_def startswith_def by (auto simp: numeral_2_eq_2)

lemma abspath_canonical:
  assumes "isabs cwd"
  shows "canonical (abspath cwd p)"
proof (cases "isabs p")
  case True
  then show ?thesis by (simp add: abspath_def normpath_abs_canonical)
next
  case False
  obtain c cs where cwd: "cwd = c # cs" and c: "c = CHR ''/''"
    using assms by (cases cwd) (auto simp: isabs_def startswith_def)
  have "isabs (path_join cwd p)"
    using False cwd c by (auto simp: path_join_def isabs_def startswith_def)
  then show ?thesis using False by (simp add: abspath_def normpath_abs_canonical)
qed

lemma abspath_of_canonical: "canonical r \<Longrightarrow> abspath cwd r = r"
  by (simp add: abspath_def canonical_isabs normpath_canonical)

lemma abspath_idem: "isabs cwd \<Longrightarrow> abspath cwd (abspath cwd p) = abspath cwd p"
  by (simp add: abspath_of_canonical abspath_canonical)

subsection \<open>Pruning as a filter\<close>

text \<open>
  An ancestor sorts before its descendants, so looking among the earlier elements of the
  sorted list finds the same parents as looking in the whole list.
\<close>

lemma less_of_slash_prefix:
  fixes q p :: string
  assumes "prefix (q @ [c]) p"
  shows "q < p"
proof -
  from assms obtain z where "p = q @ c # z" by (auto simp: prefix_def)
  then show ?thesis by (simp add: list_less_def lexord_append_rightI)
qed

lemma earlier_in_sorted:
  fixes S :: "string list"
  assumes "sorted S" and "i < length S" and "q \<in> set S" and "q < S ! i"
  shows "q \<in> set (take i S)"
proof -
  from assms(3) obtain j where j: "j < length S" and q: "S ! j = q"
    by (auto simp: in_set_conv_nth)
  have "j < i"
  proof (rule ccontr)
    assume "\<not> j < i"
    then have "i \<le> j" by simp
    then have "S ! i \<le> S ! j" using assms(1) j by (simp add: sorted_nth_mono)
    with assms(4) q show False by simp
  qed
  then show ?thesis using j q assms(2) by (auto simp: in_set_conv_nth)
qed

lemma scan_as_filter:
  fixes S :: "string list"
  assumes "sorted S"
  shows "map snd (filter (\<lambda>(i, p). \<not> list_ex (\<lambda>parent. startswith p (parent @ ''/'')) (take i S))
                      (enumerate 0 S))
         = filter (\<lambda>p. \<not> list_ex (\<lambda>parent. startswith p (parent @ ''/'')) S) S"
proof -
  let ?R = "\<lambda>p. \<not> list_ex (\<lambda>parent. startswith p (parent @ ''/'')) S"
  have same: "(case x of (i, p) \<Rightarrow> \<not> list_ex (\<lambda>parent. startswith p (parent @ ''/'')) (take i S))
              = (?R \<circ> snd) x" if "x \<in> set (enumerate 0 S)" for x
  proof -
    obtain i p where x: "x = (i, p)" by (cases x)
    from that x have i: "i < length S" and p: "p = S ! i"
      by (auto simp: in_set_enumerate_eq)
    have "list_ex (\<lambda>parent. startswith p (parent @ ''/'')) (take i S)
          \<longleftrightarrow> list_ex (\<lambda>parent. startswith p (parent @ ''/'')) S"
    proof
      assume "list_ex (\<lambda>parent. startswith p (parent @ ''/'')) (take i S)"
      then show "list_ex (\<lambda>parent. startswith p (parent @ ''/'')) S"
        by (auto simp: list_ex_iff dest: in_set_takeD)
    next
      assume "list_ex (\<lambda>parent. startswith p (parent @ ''/'')) S"
      then obtain q where q: "q \<in> set S" and pre: "startswith p (q @ ''/'')"
        by (auto simp: list_ex_iff)
      from pre have "q < p" by (auto simp: startswith_def intro: less_of_slash_prefix)
      with assms i q p have "q \<in> set (take i S)" by (auto intro: earlier_in_sorted)
      with pre show "list_ex (\<lambda>parent. startswith p (parent @ ''/'')) (take i S)"
        by (auto simp: list_ex_iff)
    qed
    then show ?thesis using x by simp
  qed
  have "filter (\<lambda>(i, p). \<not> list_ex (\<lambda>parent. startswith p (parent @ ''/'')) (take i S))
               (enumerate 0 S) = filter (?R \<circ> snd) (enumerate 0 S)"
    by (rule filter_cong) (auto simp: same simp del: comp_apply)
  then show ?thesis by (simp add: filter_map [symmetric])
qed

lemma prune_as_filter:
  "prune_redundant_paths cwd paths =
     filter (\<lambda>p. \<not> list_ex (\<lambda>parent. startswith p (parent @ ''/''))
                        (sort (remdups (map (abspath cwd) paths))))
            (sort (remdups (map (abspath cwd) paths)))"
  by (simp add: prune_redundant_paths_def Let_def scan_as_filter)

lemma set_prune:
  "set (prune_redundant_paths cwd paths) =
     {p \<in> abspath cwd ` set paths. \<not> (\<exists>q\<in>set paths. startswith p (abspath cwd q @ ''/''))}"
  by (auto simp: prune_as_filter list_ex_iff)

lemma prune_idem_aux:
  assumes "isabs cwd"
  shows "prune_redundant_paths cwd (prune_redundant_paths cwd paths)
         = prune_redundant_paths cwd paths"
proof -
  let ?S = "sort (remdups (map (abspath cwd) paths))"
  let ?R = "\<lambda>S p. \<not> list_ex (\<lambda>parent. startswith p (parent @ ''/'')) S"
  let ?out = "filter (?R ?S) ?S"
  have out: "prune_redundant_paths cwd paths = ?out" by (rule prune_as_filter)
  have fixed: "map (abspath cwd) ?out = ?out"
  proof (rule map_idI)
    fix x assume "x \<in> set ?out"
    then obtain p where "x = abspath cwd p" by auto
    then show "abspath cwd x = x" using assms by (simp add: abspath_idem)
  qed
  have "distinct ?out" by simp
  then have rd: "remdups ?out = ?out" by (rule distinct_remdups_id)
  have "sorted ?out" using sorted_filter [of "\<lambda>x. x" ?S] by simp
  then have so: "sort ?out = ?out" by (rule sorted_sort_id)
  have keep: "filter (?R ?out) ?out = ?out"
  proof (rule filter_True, rule ballI)
    fix x assume "x \<in> set ?out"
    then have "?R ?S x" by simp
    then show "?R ?out x" by (auto simp: list_ex_iff)
  qed
  have "prune_redundant_paths cwd ?out = filter (?R ?out) ?out"
    unfolding prune_as_filter [of cwd ?out] fixed rd so ..
  with keep out show ?thesis by simp
qed

subsection \<open>Claims C4 and C10: the Path Resolver\<close>

lemma canonical_shape:
  assumes k: "k = 1 \<or> k = 2" and good: "\<forall>w\<in>set cs. good_part w"
  shows "initial_slashes (replicate k CHR ''/'' @ join_sep ''/'' cs) = k"
    and "path_parts (replicate k CHR ''/'' @ join_sep ''/'' cs) = cs"
proof -
  let ?j = "join_sep ''/'' cs"
  have nl: "\<not> prefix ''/'' ?j" using good by (rule join_no_leading_slash)
  show "initial_slashes (replicate k CHR ''/'' @ ?j) = k"
    using k nl unfolding initial_slashes_def startswith_def
    by (auto simp: numeral_2_eq_2)
  have free: "\<forall>w\<in>set cs. CHR ''/'' \<notin> set w" using good by (auto simp: good_part_def)
  have keep: "filter (\<lambda>c. c \<noteq> [] \<and> c \<noteq> ''.'') cs = cs"
    using good by (auto simp: good_part_def intro!: filter_True)
  have "path_parts ?j = cs"
  proof (cases "cs = []")
    case True
    then show ?thesis by (simp add: path_parts_def)
  next
    case False
    then have "split_sep CHR ''/'' ?j = cs" using free split_join [of cs "CHR ''/''"] by simp
    then show ?thesis using keep by (simp add: path_parts_def)
  qed
  then show "path_parts (replicate k CHR ''/'' @ ?j) = cs"
    using k by (auto simp: path_parts_def numeral_2_eq_2)
qed

lemma canonical_repr:
  assumes "canonical a"
  shows "a = replicate (initial_slashes a) CHR ''/'' @ join_sep ''/'' (path_parts a)"
proof -
  from assms obtain k cs where a: "a = replicate k CHR ''/'' @ join_sep ''/'' cs"
    and k: "k = 1 \<or> k = 2" and good: "\<forall>w\<in>set cs. good_part w"
    unfolding canonical_def list_all_iff by blast
  show ?thesis using canonical_shape [OF k good] a by simp
qed

lemma join_sep_append:
  "xs \<noteq> [] \<Longrightarrow> ys \<noteq> [] \<Longrightarrow> join_sep s (xs @ ys) = join_sep s xs @ s @ join_sep s ys"
proof (induction s xs rule: join_sep.induct)
  case (1 s)
  then show ?case by simp
next
  case (2 s x)
  then show ?case by (cases ys) auto
next
  case (3 s x y zs)
  then show ?case by simp
qed

lemma descendant_textual:
  assumes a: "canonical a" and b: "canonical b"
    and same: "initial_slashes a = initial_slashes b"
    and pre: "strict_prefix (path_parts a) (path_parts b)"
    and nonroot: "path_parts a \<noteq> []"
  shows "startswith b (a @ ''/'')"
proof -
  from pre obtain zs where zs: "path_parts b = path_parts a @ zs" and ne: "zs \<noteq> []"
    by (auto simp: strict_prefix_def prefix_def)
  have "b = replicate (initial_slashes b) CHR ''/'' @ join_sep ''/'' (path_parts a @ zs)"
    using canonical_repr [OF b] zs by simp
  also have "\<dots> = replicate (initial_slashes a) CHR ''/'' @ join_sep ''/'' (path_parts a)
                   @ ''/'' @ join_sep ''/'' zs"
    using same nonroot ne by (simp add: join_sep_append)
  also have "\<dots> = a @ ''/'' @ join_sep ''/'' zs"
    using canonical_repr [OF a] by simp
  finally show ?thesis by (simp add: startswith_def prefix_def)
qed

lemma split_sep_append_gen:
  "split_sep c (a @ c # b) = split_sep c a @ split_sep c b"
proof (induction a)
  case Nil
  then show ?case by simp
next
  case (Cons x xs)
  have ne: "split_sep c xs \<noteq> []" by (rule split_sep_not_Nil)
  show ?case using Cons ne by (cases "split_sep c xs") auto
qed

lemma path_parts_append:
  "path_parts (a @ ''/'' @ b) = path_parts a @ path_parts b"
  by (simp add: path_parts_def split_sep_append_gen)

lemma initial_slashes_prefix:
  assumes q: "canonical q" and ne: "path_parts q \<noteq> []" and pre: "prefix q p"
  shows "initial_slashes p = initial_slashes q"
proof -
  from q obtain k cs where qq: "q = replicate k CHR ''/'' @ join_sep ''/'' cs"
    and k: "k = 1 \<or> k = 2" and good: "\<forall>w\<in>set cs. good_part w"
    unfolding canonical_def list_all_iff by blast
  have cs: "cs \<noteq> []" using canonical_shape(2) [OF k good] qq ne by auto
  have nl: "\<not> prefix ''/'' (join_sep ''/'' cs)" using good by (rule join_no_leading_slash)
  have "join_sep ''/'' cs \<noteq> []"
  proof (cases cs)
    case Nil
    with cs show ?thesis by simp
  next
    case (Cons x xs)
    then have "x \<noteq> []" using good by (auto simp: good_part_def)
    then show ?thesis using Cons by (cases xs) auto
  qed
  then obtain c r where j: "join_sep ''/'' cs = c # r" by (cases "join_sep ''/'' cs") auto
  have c: "c \<noteq> CHR ''/''" using nl j by simp
  from pre obtain z where p: "p = q @ z" by (auto simp: prefix_def)
  show ?thesis using k c unfolding p qq j initial_slashes_def startswith_def
    by (auto simp: numeral_2_eq_2)
qed

lemma ancestor_semantic:
  assumes q: "canonical q" and p: "canonical p" and ne: "path_parts q \<noteq> []"
    and sw: "startswith p (q @ ''/'')"
  shows "initial_slashes q = initial_slashes p \<and> strict_prefix (path_parts q) (path_parts p)"
proof -
  from sw obtain rest where pp: "p = q @ ''/'' @ rest"
    by (auto simp: startswith_def prefix_def)
  have "prefix q p" unfolding pp by simp
  then have same: "initial_slashes p = initial_slashes q"
    by (rule initial_slashes_prefix [OF q ne])
  have parts: "path_parts p = path_parts q @ path_parts rest"
    unfolding pp by (rule path_parts_append)
  have "path_parts rest \<noteq> []"
  proof
    assume "path_parts rest = []"
    then have "path_parts p = path_parts q" using parts by simp
    then have eq: "replicate (initial_slashes p) CHR ''/'' @ join_sep ''/'' (path_parts p)
                   = replicate (initial_slashes q) CHR ''/'' @ join_sep ''/'' (path_parts q)"
      using same by (simp only:)
    have "p = replicate (initial_slashes p) CHR ''/'' @ join_sep ''/'' (path_parts p)"
      by (rule canonical_repr [OF p])
    also note eq
    also have "replicate (initial_slashes q) CHR ''/'' @ join_sep ''/'' (path_parts q) = q"
      by (rule canonical_repr [OF q, symmetric])
    finally have "p = q" .
    then have "length p = length q" by (simp only:)
    moreover have "length p = length q + 1 + length rest" unfolding pp by simp
    ultimately show False by simp
  qed
  then show ?thesis using same parts by (auto simp: strict_prefix_def)
qed

text \<open>
  Claim C4, as amended. Let no path of the input list denote a filesystem root, and let
  the list contain \<open>P\<close> and a proper descendant \<open>D\<close> of \<open>P\<close>. Then the pruned list does
  not contain (the canonical form of) \<open>D\<close>; it contains \<open>P\<close> exactly when no listed path is
  a proper ancestor of \<open>P\<close>; and pruning \<^verbatim>\<open>["/a", "/a/b"]\<close> yields \<^verbatim>\<open>["/a"]\<close>.
\<close>

theorem prune_drops_descendant:
  assumes cwd: "isabs cwd" and P: "P \<in> set paths" and D: "D \<in> set paths"
    and desc: "is_proper_descendant cwd P D"
    and noroot: "list_all (\<lambda>Q. path_parts (abspath cwd Q) \<noteq> []) paths"
  shows "abspath cwd D \<notin> set (prune_redundant_paths cwd paths)
         \<and> (abspath cwd P \<in> set (prune_redundant_paths cwd paths)
              \<longleftrightarrow> \<not> list_ex (\<lambda>Q. is_proper_descendant cwd Q P) paths)
         \<and> prune_redundant_paths cwd [''/a'', ''/a/b''] = [''/a'']"
proof -
  have nr: "\<And>Q. Q \<in> set paths \<Longrightarrow> path_parts (abspath cwd Q) \<noteq> []"
    using noroot by (simp add: list_all_iff)
  have under: "startswith (abspath cwd B) (abspath cwd A @ ''/'') \<longleftrightarrow> is_proper_descendant cwd A B"
    if "A \<in> set paths" for A B
  proof
    assume "startswith (abspath cwd B) (abspath cwd A @ ''/'')"
    then show "is_proper_descendant cwd A B"
      using ancestor_semantic [OF abspath_canonical [OF cwd] abspath_canonical [OF cwd] nr [OF that]]
      by (simp add: is_proper_descendant_def)
  next
    assume "is_proper_descendant cwd A B"
    then show "startswith (abspath cwd B) (abspath cwd A @ ''/'')"
      using nr [OF that] abspath_canonical [OF cwd]
      by (auto simp: is_proper_descendant_def intro: descendant_textual)
  qed
  have "startswith (abspath cwd D) (abspath cwd P @ ''/'')"
    using under [OF P] desc by simp
  then have 1: "abspath cwd D \<notin> set (prune_redundant_paths cwd paths)"
    using P by (auto simp: set_prune)
  have 2: "abspath cwd P \<in> set (prune_redundant_paths cwd paths)
              \<longleftrightarrow> \<not> list_ex (\<lambda>Q. is_proper_descendant cwd Q P) paths"
    using P under by (auto simp: set_prune list_ex_iff)
  have "abspath cwd ''/a'' = ''/a''" and "abspath cwd ''/a/b'' = ''/a/b''"
    by (simp_all add: abspath_def isabs_def startswith_def normpath_def initial_slashes_def)
  then have 3: "prune_redundant_paths cwd [''/a'', ''/a/b''] = [''/a'']"
    by (simp add: prune_redundant_paths_def startswith_def enumerate_eq_zip)
  from 1 2 3 show ?thesis by blast
qed

text \<open>
  The hypotheses of C4 hold for \<^verbatim>\<open>/a/b\<close> and \<^verbatim>\<open>/a/b/c\<close> in a list of three paths, none
  of them a root.
\<close>

theorem prune_drops_descendant_witness:
  "isabs ''/home'' \<and> ''/a/b'' \<in> set [''/a/b/c'', ''/x'', ''/a/b''] \<and> ''/a/b/c'' \<in> set [''/a/b/c'', ''/x'', ''/a/b'']
   \<and> is_proper_descendant ''/home'' ''/a/b'' ''/a/b/c''
   \<and> list_all (\<lambda>Q. path_parts (abspath ''/home'' Q) \<noteq> []) [''/a/b/c'', ''/x'', ''/a/b'']
   \<and> abspath ''/home'' ''/a/b/c'' \<notin> set (prune_redundant_paths ''/home'' [''/a/b/c'', ''/x'', ''/a/b''])
   \<and> abspath ''/home'' ''/a/b'' \<in> set (prune_redundant_paths ''/home'' [''/a/b/c'', ''/x'', ''/a/b''])
   \<and> prune_redundant_paths ''/home'' [''/a/b/c'', ''/x'', ''/a/b''] = [''/a/b'', ''/x'']"
proof -
  have h1: "isabs ''/home''" by code_simp
  have h2: "''/a/b'' \<in> set [''/a/b/c'', ''/x'', ''/a/b'']" by simp
  have h3: "''/a/b/c'' \<in> set [''/a/b/c'', ''/x'', ''/a/b'']" by simp
  have h4: "is_proper_descendant ''/home'' ''/a/b'' ''/a/b/c''" by code_simp
  have h5: "list_all (\<lambda>Q. path_parts (abspath ''/home'' Q) \<noteq> []) [''/a/b/c'', ''/x'', ''/a/b'']"
    by code_simp
  have h6: "\<not> list_ex (\<lambda>Q. is_proper_descendant ''/home'' Q ''/a/b'') [''/a/b/c'', ''/x'', ''/a/b'']"
    by code_simp
  have h7: "prune_redundant_paths ''/home'' [''/a/b/c'', ''/x'', ''/a/b''] = [''/a/b'', ''/x'']"
    by code_simp
  from prune_drops_descendant [OF h1 h2 h3 h4 h5] h1 h2 h3 h4 h5 h6 h7 show ?thesis by blast
qed

text \<open>
  Claim C4 as stated fails: \<^verbatim>\<open>/a/b\<close> and its descendant \<^verbatim>\<open>/a/b/c\<close> are both listed, but
  \<^verbatim>\<open>/a/b\<close> is itself under the listed \<^verbatim>\<open>/a\<close>, and the pruned list is \<^verbatim>\<open>["/a"]\<close>, which
  does not contain \<^verbatim>\<open>/a/b\<close>.
\<close>

theorem prune_nested_counterexample:
  "''/a/b'' \<in> set [''/a'', ''/a/b'', ''/a/b/c''] \<and> ''/a/b/c'' \<in> set [''/a'', ''/a/b'', ''/a/b/c'']
   \<and> is_proper_descendant ''/'' ''/a/b'' ''/a/b/c''
   \<and> abspath ''/'' ''/a/b'' \<notin> set (prune_redundant_paths ''/'' [''/a'', ''/a/b'', ''/a/b/c''])
   \<and> prune_redundant_paths ''/'' [''/a'', ''/a/b'', ''/a/b/c''] = [''/a'']"
  by code_simp

text \<open>
  The root is outside the amended claim: the test \<^verbatim>\<open>p.startswith(parent + os.sep)\<close> asks
  for the prefix \<^verbatim>\<open>//\<close> when the parent is \<^verbatim>\<open>/\<close>, so a child of the root is kept beside
  the root.
\<close>

lemma prune_keeps_child_of_root:
  "is_proper_descendant ''/'' ''/'' ''/a''
   \<and> prune_redundant_paths ''/'' [''/'', ''/a''] = [''/'', ''/a'']"
  by code_simp

text \<open>
  Claim C10: pruning is idempotent. The working directory \<^verbatim>\<open>os.getcwd()\<close> is an
  absolute path.
\<close>

theorem prune_idempotent:
  "isabs cwd \<Longrightarrow> prune_redundant_paths cwd (prune_redundant_paths cwd paths)
                  = prune_redundant_paths cwd paths"
  by (rule prune_idem_aux)

text \<open>C10 at a list with a relative path, a duplicate and nested paths.\<close>

theorem prune_idempotent_witness:
  "isabs ''/home/u'' \<and>
   prune_redundant_paths ''/home/u'' (prune_redundant_paths ''/home/u'' [''b/../c/d'', ''/a/b'', ''c'', ''/a'', ''/a//'']) = [''/a'', ''/home/u/c'']
   \<and> prune_redundant_paths ''/home/u'' [''b/../c/d'', ''/a/b'', ''c'', ''/a'', ''/a//''] = [''/a'', ''/home/u/c'']"
proof -
  have h: "isabs ''/home/u''" by code_simp
  have "prune_redundant_paths ''/home/u'' [''b/../c/d'', ''/a/b'', ''c'', ''/a'', ''/a//'']
        = [''/a'', ''/home/u/c'']"
    by code_simp
  with prune_idempotent [OF h, of "[''b/../c/d'', ''/a/b'', ''c'', ''/a'', ''/a//'']"] h
  show ?thesis by simp
qed

subsection \<open>Claim C5: the archiver's monitor\<close>

lemma monitor_line_keeps_abort:
  assumes "policy \<noteq> ''abort''"
  shows "abort_signal (snd (monitor_line args stream_name error_event policy fl bp line st))
         = abort_signal st"
  using assms by (simp add: monitor_line_def Let_def split: option.split)

lemma monitor_lines_keep_abort:
  assumes "\<And>line st. abort_signal (snd (body line st)) = abort_signal st"
  shows "abort_signal (monitor_lines body lines st) = abort_signal st"
proof (induction lines arbitrary: st)
  case Nil
  then show ?case by simp
next
  case (Cons line rest)
  obtain b st' where step: "body line st = (b, st')" by (cases "body line st")
  then have "abort_signal st' = abort_signal st" using assms [of line st] by simp
  with Cons step show ?case by (cases b) simp_all
qed

lemma cannot_open_facts:
  "tar_error_re ''tar: /a/secret: Cannot open'' = Some ''/a/secret''"
  "startswith ''tar: /a/secret: Cannot open'' ''tar: ''"
  "\<not> list_ex (\<lambda>err. contains (lower ''tar: /a/secret: Cannot open'') err) ignorable_errors"
  "list_ex (\<lambda>err. contains (lower ''tar: /a/secret: Cannot open'') err) critical_errors"
  "strip_with (\<lambda>c. c = CHR 0x27) ''/a/secret'' = ''/a/secret''"
  by code_simp+

lemma cannot_open_line:
  assumes "strip line = ''tar: /a/secret: Cannot open''" and "base \<noteq> []"
  shows "monitor_line args ''tar'' True policy True (Some base) line st =
           (policy = ''abort'',
            st\<lparr>failed_items := failed_items st @ [''/a/secret''],
               emitted := emitted st @ [LogMessage ''stderr'' ''[tar] tar: /a/secret: Cannot open'']
                  @ (if policy = ''abort''
                     then [LogMessage ''error'' (''Critical error in '' @ [CHR 0x27] @ ''tar''
                             @ [CHR 0x27] @ '': tar: /a/secret: Cannot open. Aborting.'')]
                     else []),
               abort_signal := (policy = ''abort'' \<or> abort_signal st)\<rparr>)"
  using assms
  by (cases "policy = ''abort''")
     (simp_all add: monitor_line_def Let_def cannot_open_facts path_join_def startswith_def)

text \<open>
  Claim C5. The archiver's monitor (stream \<^verbatim>\<open>tar\<close>, given the event, the list and a
  base path) reads a line that is \<^verbatim>\<open>tar: /a/secret: Cannot open\<close> once stripped. Under
  policy \<^verbatim>\<open>ignore\<close> it appends \<^verbatim>\<open>/a/secret\<close> to the failed items and leaves the abort
  signal as it was; under policy \<^verbatim>\<open>abort\<close> the same line sets the abort signal. Under
  any policy other than \<^verbatim>\<open>abort\<close> no monitor, whatever it reads, changes the abort
  signal.
\<close>

theorem monitor_cannot_open:
  assumes "strip line = ''tar: /a/secret: Cannot open''" and "base \<noteq> []"
  shows "failed_items (monitor_process_stderr args ''tar'' True ''ignore'' True (Some base) [line] st)
           = failed_items st @ [''/a/secret'']
         \<and> abort_signal (monitor_process_stderr args ''tar'' True ''ignore'' True (Some base) [line] st)
           = abort_signal st
         \<and> abort_signal (monitor_process_stderr args ''tar'' True ''abort'' True (Some base) [line] st)
         \<and> (policy \<noteq> ''abort'' \<longrightarrow>
              abort_signal (monitor_process_stderr args' stream_name error_event policy
                              failed_files_list base_path lines st')
              = abort_signal st')"
proof -
  have "policy \<noteq> ''abort'' \<Longrightarrow>
          abort_signal (monitor_process_stderr args' stream_name error_event policy
                          failed_files_list base_path lines st') = abort_signal st'"
    unfolding monitor_process_stderr_def
    by (rule monitor_lines_keep_abort) (rule monitor_line_keeps_abort)
  then show ?thesis
    using assms by (simp add: monitor_process_stderr_def cannot_open_line)
qed

text \<open>C5 at the line as the pipe delivers it, with its newline, and base path \<^verbatim>\<open>/a\<close>.\<close>

theorem monitor_cannot_open_witness:
  "strip (''tar: /a/secret: Cannot open'' @ [CHR 0x0A]) = ''tar: /a/secret: Cannot open''
   \<and> ''/a'' \<noteq> []
   \<and> failed_items (monitor_process_stderr [TAR_BIN, ''-chf'', ''-''] ''tar'' True ''ignore'' True (Some ''/a'')
        [''tar: /a/secret: Cannot open'' @ [CHR 0x0A]]
        \<lparr>abort_signal = False, failed_items = [], emitted = []\<rparr>) = [''/a/secret'']
   \<and> \<not> abort_signal (monitor_process_stderr [TAR_BIN, ''-chf'', ''-''] ''tar'' True ''ignore'' True (Some ''/a'')
        [''tar: /a/secret: Cannot open'' @ [CHR 0x0A]]
        \<lparr>abort_signal = False, failed_items = [], emitted = []\<rparr>)
   \<and> abort_signal (monitor_process_stderr [TAR_BIN, ''-chf'', ''-''] ''tar'' True ''abort'' True (Some ''/a'')
        [''tar: /a/secret: Cannot open'' @ [CHR 0x0A]]
        \<lparr>abort_signal = False, failed_items = [], emitted = []\<rparr>)
   \<and> ''ignore'' \<noteq> ''abort''
   \<and> \<not> abort_signal (monitor_process_stderr [TAR_BIN, ''-chf'', ''-''] ''tar'' True ''ignore'' True (Some ''/a'')
        [''tar: x: Cannot stat: Permission denied'', ''tar: y: Cannot open'']
        \<lparr>abort_signal = False, failed_items = [], emitted = []\<rparr>)"
proof -
  have h1: "strip (''tar: /a/secret: Cannot open'' @ [CHR 0x0A]) = ''tar: /a/secret: Cannot open''"
    by code_simp
  have h2: "''/a'' \<noteq> []" by simp
  have h3: "''ignore'' \<noteq> ''abort''" by simp
  show ?thesis
    using h1 h2 h3
      monitor_cannot_open [OF h1 h2, of "[TAR_BIN, ''-chf'', ''-'']"
        "\<lparr>abort_signal = False, failed_items = [], emitted = []\<rparr>" "''ignore''"
        "[TAR_BIN, ''-chf'', ''-'']" "''tar''" True True "Some ''/a''"
        "[''tar: x: Cannot stat: Permission denied'', ''tar: y: Cannot open'']"
        "\<lparr>abort_signal = False, failed_items = [], emitted = []\<rparr>"]
    by simp
qed


subsection \<open>Claim C7: the progress monitor\<close>

lemma re_search_NoneI:
  assumes "\<And>t. set t \<subseteq> set s \<Longrightarrow> m t = None"
  shows "re_search m s = None"
  using assms
proof (induction s)
  case Nil
  then show ?case by simp
next
  case (Cons c cs)
  have "m (c # cs) = None" using Cons.prems by simp
  moreover have "re_search m cs = None"
    using Cons.prems by (intro Cons.IH) auto
  ultimately show ?case by simp
qed

lemma percent_re_sign: "CHR ''%'' \<notin> set s \<Longrightarrow> percent_re s = None"
proof -
  assume no: "CHR ''%'' \<notin> set s"
  have drop: "CHR ''%'' \<notin> set (dropWhile is_digit s)"
    using no by (auto dest: set_dropWhileD)
  show ?thesis
  proof (cases "dropWhile is_digit s")
    case Nil
    show ?thesis unfolding percent_re_def Let_def Nil by simp
  next
    case (Cons c r2)
    have c: "c \<noteq> CHR ''%''" using drop Cons by auto
    define r3 where "r3 = dropWhile is_digit r2"
    have "CHR ''%'' \<notin> set r3"
      using drop Cons unfolding r3_def by (auto dest: set_dropWhileD)
    then have "\<not> startswith r3 ''%''"
      by (cases r3) (auto simp: startswith_def)
    then have "\<not> startswith (dropWhile is_digit r2) ''%''"
      unfolding r3_def .
    with c show ?thesis unfolding percent_re_def Let_def Cons by simp
  qed
qed

lemma speed_re_bracket: "CHR ''['' \<notin> set s \<Longrightarrow> speed_re s = None"
  by (cases s) (auto simp: speed_re_def)

lemma eta_re_letter: "CHR ''E'' \<notin> set s \<Longrightarrow> eta_re s = None"
  by (cases s) (auto simp: eta_re_def startswith_def)

lemma monitor_pv_progress_append:
  "monitor_pv_progress (xs @ ys) evs = monitor_pv_progress ys (monitor_pv_progress xs evs)"
  by (induction xs arbitrary: evs) (simp_all add: Let_def)

lemma float_45_2: "format_percent ''45.2'' = ''45.2''"
proof -
  have bl: "bit_length 452 = 9" "bit_length 10 = 4"
    by (simp_all add: bit_length.simps)
  have "float_format_1f 452 10 = ''45.2''"
    by (simp add: float_format_1f_def Let_def bl ge_pow2_def round_half_even_def
        nat_digits.simps digit_char_def)
  then show ?thesis
    by (simp add: format_percent_def Let_def is_digit_def nat_of_digits_def digit_val_def)
qed

lemma pv_line_matches:
  "re_search percent_re ''12.5MiB 0:00:04 [ 3.1MiB/s] [====>     ] 45.2% ETA 00:10'' = Some ''45.2''"
  "re_search speed_re ''12.5MiB 0:00:04 [ 3.1MiB/s] [====>     ] 45.2% ETA 00:10'' = Some ''3.1MiB/s''"
  "re_search eta_re ''12.5MiB 0:00:04 [ 3.1MiB/s] [====>     ] 45.2% ETA 00:10'' = Some ''00:10''"
  "re_search percent_re ''45.2% [ 3.1MiB/s] ETA 00:10'' = Some ''45.2''"
  "re_search speed_re ''45.2% [ 3.1MiB/s] ETA 00:10'' = Some ''3.1MiB/s''"
  "re_search eta_re ''45.2% [ 3.1MiB/s] ETA 00:10'' = Some ''00:10''"
  by code_simp+

text \<open>
  Claim C7. A progress line of \<^verbatim>\<open>pv\<close> with \<^verbatim>\<open>45.2%\<close>, \<^verbatim>\<open>[ 3.1MiB/s]\<close> and \<^verbatim>\<open>ETA 00:10\<close>
  parses to the snapshot of the claim (shown for the line as \<^verbatim>\<open>pv\<close> prints it and for
  the three tokens alone). For every line, a field whose pattern does not match (for
  instance because the line has no \<^verbatim>\<open>%\<close>, no \<^verbatim>\<open>[\<close> or no \<^verbatim>\<open>E\<close>) has its placeholder; and
  what the monitor publishes for a line is computed from that line alone, whatever lines
  came before it.
\<close>

theorem progress_line_parses:
  "progress_data ''12.5MiB 0:00:04 [ 3.1MiB/s] [====>     ] 45.2% ETA 00:10''
     = \<lparr>percent = ''45.2'', speed = ''3.1MiB/s'', eta = ''00:10''\<rparr>
   \<and> progress_data ''45.2% [ 3.1MiB/s] ETA 00:10''
     = \<lparr>percent = ''45.2'', speed = ''3.1MiB/s'', eta = ''00:10''\<rparr>
   \<and> (re_search percent_re line = None \<longrightarrow> percent (progress_data line) = ''0.0'')
   \<and> (re_search speed_re line = None \<longrightarrow> speed (progress_data line) = ''--'')
   \<and> (re_search eta_re line = None \<longrightarrow> eta (progress_data line) = ''--:--'')
   \<and> (CHR ''%'' \<notin> set line \<longrightarrow> percent (progress_data line) = ''0.0'')
   \<and> (CHR ''['' \<notin> set line \<longrightarrow> speed (progress_data line) = ''--'')
   \<and> (CHR ''E'' \<notin> set line \<longrightarrow> eta (progress_data line) = ''--:--'')
   \<and> monitor_pv_progress (before @ [line]) evs
     = monitor_pv_progress before evs
       @ (if re_search speed_re line = None then []
          else [ProgressUpdate (percent (progress_data line)) (speed (progress_data line))
                  (eta (progress_data line))])"
proof -
  have 1: "progress_data ''12.5MiB 0:00:04 [ 3.1MiB/s] [====>     ] 45.2% ETA 00:10''
             = \<lparr>percent = ''45.2'', speed = ''3.1MiB/s'', eta = ''00:10''\<rparr>"
    unfolding progress_data_def pv_line_matches by (simp add: float_45_2)
  have 2: "progress_data ''45.2% [ 3.1MiB/s] ETA 00:10''
             = \<lparr>percent = ''45.2'', speed = ''3.1MiB/s'', eta = ''00:10''\<rparr>"
    unfolding progress_data_def pv_line_matches by (simp add: float_45_2)
  have p: "re_search percent_re line = None \<Longrightarrow> percent (progress_data line) = ''0.0''"
    and s: "re_search speed_re line = None \<Longrightarrow> speed (progress_data line) = ''--''"
    and e: "re_search eta_re line = None \<Longrightarrow> eta (progress_data line) = ''--:--''"
    by (simp_all add: progress_data_def)
  have "CHR ''%'' \<notin> set line \<Longrightarrow> re_search percent_re line = None"
    by (rule re_search_NoneI) (auto intro: percent_re_sign)
  then have 3: "CHR ''%'' \<notin> set line \<Longrightarrow> percent (progress_data line) = ''0.0''"
    by (rule p)
  have "CHR ''['' \<notin> set line \<Longrightarrow> re_search speed_re line = None"
    by (rule re_search_NoneI) (auto intro: speed_re_bracket)
  then have 4: "CHR ''['' \<notin> set line \<Longrightarrow> speed (progress_data line) = ''--''"
    by (rule s)
  have "CHR ''E'' \<notin> set line \<Longrightarrow> re_search eta_re line = None"
    by (rule re_search_NoneI) (auto intro: eta_re_letter)
  then have 5: "CHR ''E'' \<notin> set line \<Longrightarrow> eta (progress_data line) = ''--:--''"
    by (rule e)
  have 6: "monitor_pv_progress (before @ [line]) evs
     = monitor_pv_progress before evs
       @ (if re_search speed_re line = None then []
          else [ProgressUpdate (percent (progress_data line)) (speed (progress_data line))
                  (eta (progress_data line))])"
    by (simp add: monitor_pv_progress_append Let_def)
  from 1 2 p s e 3 4 5 6 show ?thesis by blast
qed

text \<open>
  C7 at a line with a throughput only, read after a full line: the percent and the ETA
  published are the placeholders, not the values of the line before.
\<close>

theorem progress_line_parses_witness:
  "re_search percent_re ''[ 1.0KiB/s]'' = None \<and> re_search eta_re ''[ 1.0KiB/s]'' = None
   \<and> re_search speed_re ''50% ETA 0:01'' = None
   \<and> CHR ''%'' \<notin> set ''[ 1.0KiB/s]'' \<and> CHR ''E'' \<notin> set ''[ 1.0KiB/s]''
   \<and> CHR ''['' \<notin> set ''50% ETA 0:01''
   \<and> percent (progress_data ''[ 1.0KiB/s]'') = ''0.0''
   \<and> eta (progress_data ''[ 1.0KiB/s]'') = ''--:--''
   \<and> speed (progress_data ''50% ETA 0:01'') = ''--''
   \<and> monitor_pv_progress ([''45.2% [ 3.1MiB/s] ETA 00:10''] @ [''[ 1.0KiB/s]'']) []
     = [ProgressUpdate ''45.2'' ''3.1MiB/s'' ''00:10'', ProgressUpdate ''0.0'' ''1.0KiB/s'' ''--:--'']"
proof -
  let ?L0 = "''45.2% [ 3.1MiB/s] ETA 00:10''"
  let ?L1 = "''[ 1.0KiB/s]''"
  let ?L2 = "''50% ETA 0:01''"
  have a: "re_search percent_re ?L1 = None" "re_search eta_re ?L1 = None"
    "re_search speed_re ?L2 = None"
    by code_simp+
  have sp: "re_search speed_re ?L1 = Some ''1.0KiB/s''" by code_simp
  have c: "monitor_pv_progress [?L0] [] = [ProgressUpdate ''45.2'' ''3.1MiB/s'' ''00:10'']"
    unfolding monitor_pv_progress.simps Let_def progress_data_def pv_line_matches
    by (simp add: float_45_2)
  have b: "speed (progress_data ?L1) = ''1.0KiB/s''"
    unfolding progress_data_def sp by simp
  have d: "CHR ''%'' \<notin> set ?L1" "CHR ''E'' \<notin> set ?L1" "CHR ''['' \<notin> set ?L2"
    by simp_all
  note t1 = progress_line_parses [of ?L1 "[?L0]" "[]"]
  note t2 = progress_line_parses [of ?L2 "[]" "[]"]
  have p1: "percent (progress_data ?L1) = ''0.0''" using t1 a(1) by blast
  have e1: "eta (progress_data ?L1) = ''--:--''" using t1 a(2) by blast
  have s2: "speed (progress_data ?L2) = ''--''" using t2 a(3) by blast
  have "monitor_pv_progress ([?L0] @ [?L1]) []
        = monitor_pv_progress [?L0] [] @
          (if re_search speed_re ?L1 = None then []
           else [ProgressUpdate (percent (progress_data ?L1)) (speed (progress_data ?L1))
                   (eta (progress_data ?L1))])"
    using t1 by blast
  then have m: "monitor_pv_progress ([?L0] @ [?L1]) []
        = [ProgressUpdate ''45.2'' ''3.1MiB/s'' ''00:10'', ProgressUpdate ''0.0'' ''1.0KiB/s'' ''--:--'']"
    unfolding c sp b p1 e1 by simp
  from a d p1 e1 s2 m show ?thesis by blast
qed

subsection \<open>Process handles: waiting\<close>

lemma popen_eq: "popen args w = (length (spawned w), w\<lparr>spawned := spawned w @ [fresh_proc args]\<rparr>)"
  by (simp add: popen_def fresh_proc_def)

lemma map_update_same: "(map f xs)[i := f (xs ! i)] = map f xs"
  by (cases "i < length xs") (simp_all add: list_update_same_conv list_update_beyond)

lemma proc_wait_frame [simp]:
  "events (snd (proc_wait E pid w)) = events w"
  "files (snd (proc_wait E pid w)) = files w"
  "du_calls (snd (proc_wait E pid w)) = du_calls w"
  "length (spawned (snd (proc_wait E pid w))) = length (spawned w)"
  "map p_args (spawned (snd (proc_wait E pid w))) = map p_args (spawned w)"
  by (simp_all add: proc_wait_def Let_def map_update map_update_same)

lemma proc_wait_code: "settled E w pid \<Longrightarrow> fst (proc_wait E pid w) = stage_exit E pid"
  by (auto simp: proc_wait_def settled_def Let_def split: proc_status.splits)

lemma proc_wait_settled:
  "settled E w pid \<Longrightarrow> settled E w q \<Longrightarrow> settled E (snd (proc_wait E pid w)) q"
  by (auto simp: proc_wait_def settled_def Let_def nth_list_update split: proc_status.splits)

lemma proc_wait_exited:
  "settled E w pid \<Longrightarrow>
     p_status (spawned (snd (proc_wait E pid w)) ! pid) = Exited (stage_exit E pid)
     \<and> waited (spawned (snd (proc_wait E pid w)) ! pid)"
  by (auto simp: proc_wait_def settled_def Let_def split: proc_status.splits)

lemma wait_all_frame [simp]:
  "events (snd (wait_all E procs codes w)) = events w"
  "files (snd (wait_all E procs codes w)) = files w"
  "du_calls (snd (wait_all E procs codes w)) = du_calls w"
  "length (spawned (snd (wait_all E procs codes w))) = length (spawned w)"
  "map p_args (spawned (snd (wait_all E procs codes w))) = map p_args (spawned w)"
  by (induction E procs codes w rule: wait_all.induct; simp add: case_prod_unfold Let_def)+

lemma wait_all_codes:
  "list_all (\<lambda>(name, pid). settled E w pid) procs \<Longrightarrow>
     fst (wait_all E procs codes w)
     = fold (\<lambda>(name, pid). AList.update name (stage_exit E pid)) procs codes"
proof (induction E procs codes w rule: wait_all.induct)
  case (1 E codes w)
  then show ?case by simp
next
  case (2 E name pid rest codes w)
  obtain code w' where pw: "proc_wait E pid w = (code, w')" by (cases "proc_wait E pid w")
  have s: "settled E w pid" using 2(2) by simp
  have code: "code = stage_exit E pid" using proc_wait_code [OF s] pw by simp
  have "list_all (\<lambda>(name, pid). settled E w' pid) rest"
    using 2(2) proc_wait_settled [OF s] pw by (auto simp: list_all_iff)
  then show ?case using 2(1) [OF pw [symmetric] refl] pw code by simp
qed

subsection \<open>Claim C8: exit codes of a restore\<close>

lemma fold_update_distinct:
  "distinct (map fst procs) \<Longrightarrow> fst ` set acc \<inter> fst ` set procs = {} \<Longrightarrow>
     fold (\<lambda>(name, pid). AList.update name (f pid)) procs acc
     = acc @ map (\<lambda>(name, pid). (name, f pid)) procs"
proof (induction procs arbitrary: acc)
  case Nil
  then show ?case by simp
next
  case (Cons a procs)
  obtain name pid where a: "a = (name, pid)" by (cases a)
  have notin: "name \<notin> fst ` set acc" using Cons.prems a by auto
  then have upd: "AList.update name (f pid) acc = acc @ [(name, f pid)]"
    by (induction acc) auto
  have "fst ` set (acc @ [(name, f pid)]) \<inter> fst ` set procs = {}"
    using Cons.prems a by auto
  moreover have "distinct (map fst procs)" using Cons.prems by simp
  ultimately show ?case using Cons.IH [of "acc @ [(name, f pid)]"] a upd by simp
qed

lemma settled_fresh:
  "spawned w = old @ map fresh_proc argss \<Longrightarrow> length old \<le> pid
     \<Longrightarrow> pid < length old + length argss \<Longrightarrow> settled E w pid"
  by (simp add: settled_def nth_append fresh_proc_def)

lemma reported_simps [simp]:
  "reported [] = []"
  "reported (LogMessage l m # evs) = reported evs"
  "reported (BackupComplete st ff # evs) = st # reported evs"
  "reported (ExtractionComplete st # evs) = st # reported evs"
  by (simp_all add: reported_def List.map_filter_simps)

lemma build_extraction_eq:
  assumes fn: "filename cfg = Some fname"
    and ex: "path_join (if up then TEMP_UPLOAD_PATH E else BACKUPS_PATH E) fname \<in> set (files w)"
  shows "build_extraction_pipeline E cfg up w =
           (w\<lparr>spawned := spawned w @ map (fresh_proc \<circ> snd) (extraction_stages E cfg up fname),
              events := events w @ (if has_tty E then []
                          else [LogMessage ''warn'' ''Could not determine TTY for prompts.''])\<rparr>,
            Inr (zip (map fst (extraction_stages E cfg up fname))
                     [length (spawned w)..<length (spawned w)
                                            + length (extraction_stages E cfg up fname)]))"
  using fn ex
  by (simp add: build_extraction_pipeline_def extraction_stages_def Let_def popen_eq
      log_event_def emit_def upt_rec)


lemma extraction_stages_names: "distinct (map fst (extraction_stages E cfg up fname))"
  by (simp add: extraction_stages_def)

lemma list_all_zip_upt:
  "length names = k \<Longrightarrow>
     list_all (\<lambda>(name, code). code = (0::int)) (map (\<lambda>(name, pid). (name, f pid)) (zip names [n..<n + k]))
     = list_all (\<lambda>pid. f pid = 0) [n..<n + k]"
proof -
  assume len: "length names = k"
  have "map snd (zip names [n..<n + k]) = [n..<n + k]" using len by simp
  then have "list_all (\<lambda>pid. f pid = 0) [n..<n + k]
             = list_all (\<lambda>pid. f pid = 0) (map snd (zip names [n..<n + k]))" by simp
  also have "\<dots> = list_all (\<lambda>(name, code). code = (0::int))
                       (map (\<lambda>(name, pid). (name, f pid)) (zip names [n..<n + k]))"
    by (simp add: list_all_iff case_prod_unfold)
  finally show ?thesis by simp
qed

text \<open>
  Claim C8. When the backup file exists, so that the restore pipeline is built, a
  restore run reports exactly one status: \<^verbatim>\<open>success\<close> if every stage it spawned (reader,
  optional decryptor, decompressor, extractor) exits with 0, and \<^verbatim>\<open>error\<close> otherwise,
  whichever stage exits with whatever non-zero code. The stages spawned are those of
  \<open>extraction_stages\<close>, and no exception leaves the function.
\<close>

theorem extraction_success_iff:
  assumes fn: "filename cfg = Some fname"
    and ex: "path_join (if up then TEMP_UPLOAD_PATH E else BACKUPS_PATH E) fname \<in> set (files w)"
  shows "reported (new_events w (fst (run_extraction_task E cfg up w)))
           = [if list_all (\<lambda>pid. stage_exit E pid = 0)
                   [length (spawned w)..<length (spawned w)
                                          + length (extraction_stages E cfg up fname)]
              then ''success'' else ''error'']
         \<and> map p_args (spawned (fst (run_extraction_task E cfg up w)))
           = map p_args (spawned w) @ map snd (extraction_stages E cfg up fname)
         \<and> snd (run_extraction_task E cfg up w) = None"
proof -
  let ?st = "extraction_stages E cfg up fname"
  let ?n = "length (spawned w)"
  let ?k = "length ?st"
  let ?procs = "zip (map fst ?st) [?n..<?n + ?k]"
  let ?tty = "if has_tty E then [] else [LogMessage ''warn'' ''Could not determine TTY for prompts.'']"
  let ?w1 = "w\<lparr>spawned := spawned w @ map (fresh_proc \<circ> snd) ?st, events := events w @ ?tty\<rparr>"
  have build: "build_extraction_pipeline E cfg up w = (?w1, Inr ?procs)"
    using fn ex by (rule build_extraction_eq)
  have sp1: "spawned ?w1 = spawned w @ map fresh_proc (map snd ?st)" by simp
  have fresh: "settled E ?w1 pid" if "?n \<le> pid" "pid < ?n + ?k" for pid
    using settled_fresh [OF sp1, of pid E] that by simp
  have k: "0 < ?k" by (simp add: extraction_stages_def)
  have pids: "map snd ?procs = [?n..<?n + ?k]" by simp
  have ne: "?procs \<noteq> []" using k by (cases ?st) (auto simp: upt_rec)
  have lm: "last (map snd ?procs) = snd (last ?procs)" using ne by (rule last_map)
  have lastpid: "snd (last ?procs) = ?n + ?k - 1"
    unfolding lm [symmetric] pids using k by simp
  let ?w1' = "snd (proc_wait E (snd (last ?procs)) ?w1)"
  have s_last: "settled E ?w1 (snd (last ?procs))"
    unfolding lastpid using k by (intro fresh; linarith)
  have settled': "list_all (\<lambda>(name, pid). settled E ?w1' pid) ?procs"
  proof -
    have "settled E ?w1' pid" if "pid \<in> set [?n..<?n + ?k]" for pid
      using that by (intro proc_wait_settled [OF s_last] fresh) auto
    then show ?thesis
      unfolding list_all_iff by (auto dest!: set_zip_rightD)
  qed
  let ?codes = "fst (wait_all E ?procs [] ?w1')"
  let ?w2 = "snd (wait_all E ?procs [] ?w1')"
  have codes: "?codes = map (\<lambda>(name, pid). (name, stage_exit E pid)) ?procs"
    unfolding wait_all_codes [OF settled']
    by (subst fold_update_distinct) (simp_all add: extraction_stages_names distinct_zipI1)
  have ok: "list_all (\<lambda>(name, code). code = 0) ?codes
            = list_all (\<lambda>pid. stage_exit E pid = 0) [?n..<?n + ?k]"
    unfolding codes by (rule list_all_zip_upt) simp
  have ev2: "events ?w2 = events w @ ?tty" by simp
  have sp2: "map p_args (spawned ?w2) = map p_args (spawned w) @ map snd ?st"
    by (simp add: fresh_proc_def comp_def)
  show ?thesis
    using fn ok ev2 sp2
    by (simp add: run_extraction_task_def build case_prod_unfold Let_def new_events_def
        log_event_def emit_def split: option.split)
qed


lemma endswith_rev: "endswith s p = prefix (rev p) (rev s)"
  by (simp add: endswith_def suffix_to_prefix)

text \<open>
  C8 on a plain \<^verbatim>\<open>.tar.zst\<close> file: three stages; the run succeeds when all exit with 0
  and reports an error when the extractor (the third process) exits with 1.
\<close>

theorem extraction_success_iff_witness:
  "filename (no_config\<lparr>filename := Some ''b.tar.zst''\<rparr>) = Some ''b.tar.zst''
   \<and> path_join (if False then TEMP_UPLOAD_PATH quiet_env else BACKUPS_PATH quiet_env) ''b.tar.zst''
       \<in> set (files (empty_world\<lparr>files := [''/home/backups/b.tar.zst'']\<rparr>))
   \<and> reported (new_events (empty_world\<lparr>files := [''/home/backups/b.tar.zst'']\<rparr>)
        (fst (run_extraction_task quiet_env (no_config\<lparr>filename := Some ''b.tar.zst''\<rparr>) False
               (empty_world\<lparr>files := [''/home/backups/b.tar.zst'']\<rparr>)))) = [''success'']
   \<and> reported (new_events (empty_world\<lparr>files := [''/home/backups/b.tar.zst'']\<rparr>)
        (fst (run_extraction_task (quiet_env\<lparr>stage_exit := (\<lambda>pid. if pid = 2 then 1 else 0)\<rparr>)
               (no_config\<lparr>filename := Some ''b.tar.zst''\<rparr>) False
               (empty_world\<lparr>files := [''/home/backups/b.tar.zst'']\<rparr>)))) = [''error'']"
proof -
  let ?C = "no_config\<lparr>filename := Some ''b.tar.zst''\<rparr>"
  let ?W = "empty_world\<lparr>files := [''/home/backups/b.tar.zst'']\<rparr>"
  let ?E = "quiet_env\<lparr>stage_exit := (\<lambda>pid. if pid = 2 then 1 else 0)\<rparr>"
  have h1: "filename ?C = Some ''b.tar.zst''" by simp
  have p: "path_join (BACKUPS_PATH quiet_env) ''b.tar.zst'' = ''/home/backups/b.tar.zst''"
    "path_join (BACKUPS_PATH ?E) ''b.tar.zst'' = ''/home/backups/b.tar.zst''"
    by (simp_all add: BACKUPS_PATH_def path_join_def quiet_env_def startswith_def endswith_rev)
  have h2: "path_join (if False then TEMP_UPLOAD_PATH quiet_env else BACKUPS_PATH quiet_env) ''b.tar.zst''
            \<in> set (files ?W)"
    using p by simp
  have h2': "path_join (if False then TEMP_UPLOAD_PATH ?E else BACKUPS_PATH ?E) ''b.tar.zst''
            \<in> set (files ?W)"
    using p by simp
  have st: "length (extraction_stages E' ?C False ''b.tar.zst'') = 3" for E'
    by (simp add: extraction_stages_def endswith_rev)
  have sp: "spawned ?W = []" by (simp add: empty_world_def)
  have ok: "list_all (\<lambda>pid. stage_exit quiet_env pid = 0) [0..<0 + 3]"
    by (simp add: quiet_env_def list_all_iff)
  have bad: "\<not> list_all (\<lambda>pid. stage_exit ?E pid = 0) [0..<0 + 3]"
    by (simp add: upt_rec)
  show ?thesis
    using h1 h2 extraction_success_iff [OF h1 h2] extraction_success_iff [OF h1 h2'] ok bad
    unfolding st sp list.size by simp
qed

subsection \<open>The stages a backup spawns\<close>

lemma start_monitors_fields [simp]:
  "final_proc (start_monitors E cfg ps t a b c fin procs w) = fin"
  "processes (start_monitors E cfg ps t a b c fin procs w) = procs"
  "total_size (start_monitors E cfg ps t a b c fin procs w) = t"
  "pv_cmd (start_monitors E cfg ps t a b c fin procs w) = p_args (spawned w ! b)"
  "tar_cmd (start_monitors E cfg ps t a b c fin procs w) = p_args (spawned w ! a)"
  "monitor_outcome (start_monitors E cfg ps t a b c fin procs w)
     = monitor_process_stderr (p_args (spawned w ! a)) ''tar'' True (error_policy_of cfg) True
         (Some (common_base_of ps)) (stage_stderr E a)
         \<lparr>abort_signal = False, failed_items = [], emitted = []\<rparr>"
  by (simp_all add: start_monitors_def Let_def)

lemma spawn_backup_stages_error:
  assumes "configuration_error cfg = Some e"
  shows "spawn_backup_stages E cfg ps t w =
           (w\<lparr>spawned := spawned w @ [fresh_proc (make_tar_cmd E cfg ps), fresh_proc (make_pv_cmd t),
                                       fresh_proc [ZSTD_BIN, ''-T0'']]\<rparr>, Inl e)"
  using assms
  by (auto simp: spawn_backup_stages_def configuration_error_def popen_eq Let_def falsy_def
      split: if_splits option.splits)

lemma spawn_backup_stages_ok:
  assumes "configuration_error cfg = None"
  shows "\<exists>pl. spawn_backup_stages E cfg ps t w =
           (w\<lparr>spawned := spawned w @ [fresh_proc (make_tar_cmd E cfg ps), fresh_proc (make_pv_cmd t),
                                       fresh_proc [ZSTD_BIN, ''-T0'']]
                            @ (case encryptor_cmd cfg of None \<Rightarrow> [] | Some c \<Rightarrow> [fresh_proc c])\<rparr>,
            Inr pl)
         \<and> processes pl = backup_processes cfg (length (spawned w))
         \<and> total_size pl = t \<and> pv_cmd pl = make_pv_cmd t \<and> tar_cmd pl = make_tar_cmd E cfg ps
         \<and> monitor_outcome pl
             = monitor_process_stderr (make_tar_cmd E cfg ps) ''tar'' True (error_policy_of cfg) True
                 (Some (common_base_of ps)) (stage_stderr E (length (spawned w)))
                 \<lparr>abort_signal = False, failed_items = [], emitted = []\<rparr>"
  using assms
  by (auto simp: spawn_backup_stages_def configuration_error_def encryptor_cmd_def
      backup_processes_def popen_eq Let_def falsy_def nth_append fresh_proc_def
      split: if_splits option.splits)


subsection \<open>The size estimator and the builder\<close>

lemma du_total_failed: "(\<exists>why. du_total d = Inl why) = du_failed d"
  by (cases d) (auto split: option.splits)

lemma estimate_total_size_eq:
  "estimate_total_size E ps w =
     (if all_cached E ps
      then (sum_list (map (\<lambda>p. case map_of (cache_map E) p of Some v \<Rightarrow> v | None \<Rightarrow> 0) ps), w)
      else case du_total (du_answer E) of
             Inr t \<Rightarrow> (t, w\<lparr>du_calls := Suc (du_calls w)\<rparr>)
           | Inl why \<Rightarrow>
               (0, w\<lparr>du_calls := Suc (du_calls w),
                     events := events w @ [LogMessage ''warn''
                        (''Could not calculate total size (often OK): '' @ why)]\<rparr>))"
  by (simp add: estimate_total_size_def all_cached_def log_event_def emit_def split: sum.split)

lemma estimate_frame [simp]:
  "spawned (snd (estimate_total_size E ps w)) = spawned w"
  "files (snd (estimate_total_size E ps w)) = files w"
  by (simp_all add: estimate_total_size_eq split: sum.split)

lemma estimate_failed:
  "du_failed (du_answer E) \<Longrightarrow> \<not> all_cached E ps \<Longrightarrow> fst (estimate_total_size E ps w) = 0"
  using du_total_failed [of "du_answer E"]
  by (auto simp: estimate_total_size_eq split: sum.split)

lemma estimate_cached:
  "all_cached E ps \<Longrightarrow>
     estimate_total_size E ps w
     = (sum_list (map (\<lambda>p. case map_of (cache_map E) p of Some v \<Rightarrow> v | None \<Rightarrow> 0) ps), w)"
  by (simp add: estimate_total_size_eq)

text \<open>The builder, with the outcome of its last part named.\<close>

lemma build_backup_pipeline_eq:
  "build_backup_pipeline E cfg w =
     (if sources cfg = [] then (w, Inl (ValueError ''No source directories selected.''))
      else if prune_redundant_paths (getcwd E) (sources cfg) = []
      then (w, Inl (ValueError ''Source list is empty after pruning.''))
      else case find (\<lambda>path. \<not> readable E path) (prune_redundant_paths (getcwd E) (sources cfg)) of
             Some path \<Rightarrow>
               (w\<lparr>events := events w @ [LogMessage ''info'' (''Pruned source list to: ''
                    @ repr_paths (prune_redundant_paths (getcwd E) (sources cfg)))]\<rparr>,
                Inl (PermissionError (''Permission Denied for '' @ [CHR 0x27] @ path @ [CHR 0x27] @ ''.'')))
           | None \<Rightarrow>
               spawn_backup_stages E cfg (prune_redundant_paths (getcwd E) (sources cfg))
                 (fst (estimate_total_size E (prune_redundant_paths (getcwd E) (sources cfg))
                    (w\<lparr>events := events w @ [LogMessage ''info'' (''Pruned source list to: ''
                       @ repr_paths (prune_redundant_paths (getcwd E) (sources cfg)))]\<rparr>)))
                 (snd (estimate_total_size E (prune_redundant_paths (getcwd E) (sources cfg))
                    (w\<lparr>events := events w @ [LogMessage ''info'' (''Pruned source list to: ''
                       @ repr_paths (prune_redundant_paths (getcwd E) (sources cfg)))]\<rparr>))))"
  by (simp add: build_backup_pipeline_def Let_def log_event_def emit_def case_prod_unfold
      split: option.split)

lemma build_error_iff:
  "snd (build_backup_pipeline E cfg w) = Inl e \<longleftrightarrow>
     (sources cfg = [] \<and> e = ValueError ''No source directories selected.'')
   \<or> (sources cfg \<noteq> [] \<and> prune_redundant_paths (getcwd E) (sources cfg) = []
        \<and> e = ValueError ''Source list is empty after pruning.'')
   \<or> (sources cfg \<noteq> [] \<and> prune_redundant_paths (getcwd E) (sources cfg) \<noteq> []
        \<and> (\<exists>path. find (\<lambda>path. \<not> readable E path)
                        (prune_redundant_paths (getcwd E) (sources cfg)) = Some path
                 \<and> e = PermissionError (''Permission Denied for '' @ [CHR 0x27] @ path
                                           @ [CHR 0x27] @ ''.'')))
   \<or> (sources cfg \<noteq> [] \<and> prune_redundant_paths (getcwd E) (sources cfg) \<noteq> []
        \<and> find (\<lambda>path. \<not> readable E path)
                 (prune_redundant_paths (getcwd E) (sources cfg)) = None
        \<and> configuration_error cfg = Some e)"
proof (cases "configuration_error cfg")
  case None
  show ?thesis
    using spawn_backup_stages_ok [OF None]
    unfolding build_backup_pipeline_eq
    by (auto simp: None split: option.split) (metis Inl_Inr_False snd_conv)+
next
  case (Some e')
  show ?thesis
    unfolding build_backup_pipeline_eq
    by (auto simp: Some spawn_backup_stages_error [OF Some] split: option.split)
qed


lemma fst_estimate:
  "fst (estimate_total_size E ps w) = fst (estimate_total_size E ps w')"
  by (simp add: estimate_total_size_eq split: sum.split)

lemma du_calls_estimate:
  "du_calls (snd (estimate_total_size E ps w)) = du_calls w + (if all_cached E ps then 0 else 1)"
  by (simp add: estimate_total_size_eq split: sum.split)

lemma reported_append [simp]: "reported (xs @ ys) = reported xs @ reported ys"
  by (simp add: reported_def List.map_filter_def)

lemma reported_estimate:
  "\<exists>logs. events (snd (estimate_total_size E ps w)) = events w @ logs \<and> reported logs = []"
  by (simp add: estimate_total_size_eq split: sum.split)

lemma build_ok:
  assumes "build_backup_pipeline E cfg w = (w', Inr pl)"
  shows "processes pl = backup_processes cfg (length (spawned w))"
    and "spawned w' = spawned w
           @ map fresh_proc ([tar_cmd pl, pv_cmd pl, [ZSTD_BIN, ''-T0'']]
                             @ (case encryptor_cmd cfg of None \<Rightarrow> [] | Some c \<Rightarrow> [c]))"
    and "files w' = files w"
    and "\<exists>logs. events w' = events w @ logs \<and> reported logs = []"
    and "total_size pl
         = fst (estimate_total_size E (prune_redundant_paths (getcwd E) (sources cfg)) w)"
    and "pv_cmd pl = make_pv_cmd (total_size pl)"
    and "du_calls w' = du_calls w
           + (if all_cached E (prune_redundant_paths (getcwd E) (sources cfg)) then 0 else 1)"
    and "monitor_outcome pl
         = monitor_process_stderr (tar_cmd pl) ''tar'' True (error_policy_of cfg) True
             (Some (common_base_of (prune_redundant_paths (getcwd E) (sources cfg))))
             (stage_stderr E (length (spawned w)))
             \<lparr>abort_signal = False, failed_items = [], emitted = []\<rparr>"
    and "configuration_error cfg = None"
proof -
  let ?ps = "prune_redundant_paths (getcwd E) (sources cfg)"
  let ?w1 = "w\<lparr>events := events w @ [LogMessage ''info'' (''Pruned source list to: ''
                       @ repr_paths ?ps)]\<rparr>"
  let ?est = "estimate_total_size E ?ps ?w1"
  from assms have ok: "snd (build_backup_pipeline E cfg w) = Inr pl" by simp
  have src: "sources cfg \<noteq> []"
  proof
    assume "sources cfg = []"
    then have "snd (build_backup_pipeline E cfg w) = Inl (ValueError ''No source directories selected.'')"
      by (simp add: build_backup_pipeline_eq)
    with ok show False by simp
  qed
  have ps: "?ps \<noteq> []"
  proof
    assume "?ps = []"
    then have "snd (build_backup_pipeline E cfg w) = Inl (ValueError ''Source list is empty after pruning.'')"
      using src by (simp add: build_backup_pipeline_eq)
    with ok show False by simp
  qed
  have rd: "find (\<lambda>path. \<not> readable E path) ?ps = None"
  proof (cases "find (\<lambda>path. \<not> readable E path) ?ps")
    case None
    then show ?thesis .
  next
    case (Some path)
    then have "snd (build_backup_pipeline E cfg w)
               = Inl (PermissionError (''Permission Denied for '' @ [CHR 0x27] @ path @ [CHR 0x27] @ ''.''))"
      using src ps by (simp add: build_backup_pipeline_eq)
    with ok show ?thesis by simp
  qed
  from assms src ps rd have sp: "spawn_backup_stages E cfg ?ps (fst ?est) (snd ?est) = (w', Inr pl)"
    by (simp add: build_backup_pipeline_eq)
  have cfgok: "configuration_error cfg = None"
  proof (cases "configuration_error cfg")
    case None
    then show ?thesis .
  next
    case (Some e)
    from spawn_backup_stages_error [OF Some, of E ?ps "fst ?est" "snd ?est"] sp
    show ?thesis by simp
  qed
  from spawn_backup_stages_ok [OF cfgok, of E ?ps "fst ?est" "snd ?est"]
  obtain pl' where eq: "spawn_backup_stages E cfg ?ps (fst ?est) (snd ?est) =
           ((snd ?est)\<lparr>spawned := spawned (snd ?est)
                  @ [fresh_proc (make_tar_cmd E cfg ?ps), fresh_proc (make_pv_cmd (fst ?est)),
                     fresh_proc [ZSTD_BIN, ''-T0'']]
                  @ (case encryptor_cmd cfg of None \<Rightarrow> [] | Some c \<Rightarrow> [fresh_proc c])\<rparr>,
            Inr pl')"
    and procs': "processes pl' = backup_processes cfg (length (spawned (snd ?est)))"
    and tot': "total_size pl' = fst ?est" and pv': "pv_cmd pl' = make_pv_cmd (fst ?est)"
    and tar': "tar_cmd pl' = make_tar_cmd E cfg ?ps"
    and mon': "monitor_outcome pl'
             = monitor_process_stderr (make_tar_cmd E cfg ?ps) ''tar'' True (error_policy_of cfg) True
                 (Some (common_base_of ?ps)) (stage_stderr E (length (spawned (snd ?est))))
                 \<lparr>abort_signal = False, failed_items = [], emitted = []\<rparr>"
    by blast
  from eq sp have pl: "pl' = pl"
    and w': "w' = (snd ?est)\<lparr>spawned := spawned (snd ?est)
                  @ [fresh_proc (make_tar_cmd E cfg ?ps), fresh_proc (make_pv_cmd (fst ?est)),
                     fresh_proc [ZSTD_BIN, ''-T0'']]
                  @ (case encryptor_cmd cfg of None \<Rightarrow> [] | Some c \<Rightarrow> [fresh_proc c])\<rparr>"
    by simp_all
  note procs = procs' [unfolded pl] and tot = tot' [unfolded pl] and pv = pv' [unfolded pl]
    and tar = tar' [unfolded pl] and mon = mon' [unfolded pl]
  show "processes pl = backup_processes cfg (length (spawned w))" using procs by simp
  show "spawned w' = spawned w
           @ map fresh_proc ([tar_cmd pl, pv_cmd pl, [ZSTD_BIN, ''-T0'']]
                             @ (case encryptor_cmd cfg of None \<Rightarrow> [] | Some c \<Rightarrow> [c]))"
    unfolding w' tar pv by (simp split: option.split)
  show "files w' = files w" unfolding w' by simp
  show "\<exists>logs. events w' = events w @ logs \<and> reported logs = []"
  proof -
    from reported_estimate [of E ?ps ?w1]
    obtain logs where "events (snd ?est) = events ?w1 @ logs" and "reported logs = []" by blast
    then have "events w' = events w @ (LogMessage ''info'' (''Pruned source list to: ''
                       @ repr_paths ?ps) # logs)
               \<and> reported (LogMessage ''info'' (''Pruned source list to: ''
                       @ repr_paths ?ps) # logs) = []"
      unfolding w' by simp
    then show ?thesis by blast
  qed
  show "total_size pl = fst (estimate_total_size E ?ps w)"
    using tot fst_estimate [of E ?ps ?w1 w] by simp
  show "pv_cmd pl = make_pv_cmd (total_size pl)" using pv tot by simp
  show "du_calls w' = du_calls w + (if all_cached E ?ps then 0 else 1)"
    unfolding w' by (simp add: du_calls_estimate)
  show "monitor_outcome pl
         = monitor_process_stderr (tar_cmd pl) ''tar'' True (error_policy_of cfg) True
             (Some (common_base_of ?ps)) (stage_stderr E (length (spawned w)))
             \<lparr>abort_signal = False, failed_items = [], emitted = []\<rparr>"
    using mon tar by simp
  show "configuration_error cfg = None" by (rule cfgok)
qed


lemma prune_not_Nil:
  assumes "paths \<noteq> []"
  shows "prune_redundant_paths cwd paths \<noteq> []"
proof -
  let ?S = "sort (remdups (map (abspath cwd) paths))"
  have "set ?S \<noteq> {}" using assms by simp
  then obtain p rest where S: "?S = p # rest" by (cases ?S) auto
  have least: "p \<le> q" if "q \<in> set ?S" for q
    using that sorted_sort [of "remdups (map (abspath cwd) paths)"] unfolding S by auto
  have "\<not> list_ex (\<lambda>parent. startswith p (parent @ ''/'')) ?S"
  proof
    assume "list_ex (\<lambda>parent. startswith p (parent @ ''/'')) ?S"
    then obtain q where q: "q \<in> set ?S" and "startswith p (q @ ''/'')"
      by (auto simp: list_ex_iff)
    then have "q < p" by (auto simp: startswith_def intro: less_of_slash_prefix)
    with least [OF q] show False by simp
  qed
  moreover have "p \<in> set ?S" unfolding S by simp
  ultimately have "p \<in> set (prune_redundant_paths cwd paths)"
    unfolding prune_as_filter by simp
  then show ?thesis by auto
qed

lemma build_succeeds:
  assumes "sources cfg \<noteq> []"
    and "list_all (readable E) (prune_redundant_paths (getcwd E) (sources cfg))"
    and "configuration_error cfg = None"
  shows "\<exists>w' pl. build_backup_pipeline E cfg w = (w', Inr pl)"
proof -
  have rd: "find (\<lambda>path. \<not> readable E path) (prune_redundant_paths (getcwd E) (sources cfg)) = None"
    using assms(2) by (simp add: find_None_iff list_all_iff)
  have "\<And>e. snd (build_backup_pipeline E cfg w) \<noteq> Inl e"
    unfolding build_error_iff using assms(1,3) rd prune_not_Nil [OF assms(1)] by simp
  then obtain pl where "snd (build_backup_pipeline E cfg w) = Inr pl"
    by (cases "snd (build_backup_pipeline E cfg w)") auto
  then show ?thesis by (cases "build_backup_pipeline E cfg w") auto
qed

text \<open>
  Claim C9. Whether the build fails, and with which error, does not depend on what the
  disk-usage query answers; with sources selected, every pruned source readable and the
  encryption settings complete, the build returns a pipeline whatever the query does.
  When the query fails (timeout, non-zero exit, output that cannot be decoded or parsed)
  and some pruned source is missing from the cache, the total is 0, the value for
  "unknown": the meter is started without \<^verbatim>\<open>-s\<close>. When every pruned source is in the
  cache, the total is the sum of the cached sizes and no disk-usage query is run.
\<close>

theorem size_estimation_is_advisory:
  "((snd (build_backup_pipeline (E\<lparr>du_answer := d\<rparr>) cfg w) = Inl e)
      = (snd (build_backup_pipeline (E\<lparr>du_answer := d'\<rparr>) cfg w) = Inl e))
   \<and> (sources cfg \<noteq> [] \<and> list_all (readable E) (prune_redundant_paths (getcwd E) (sources cfg))
        \<and> configuration_error cfg = None
      \<longrightarrow> (\<exists>w' pl. build_backup_pipeline E cfg w = (w', Inr pl)))
   \<and> (du_failed (du_answer E) \<and> \<not> all_cached E ps
      \<longrightarrow> fst (estimate_total_size E ps w) = 0)
   \<and> (du_failed (du_answer E)
        \<and> \<not> all_cached E (prune_redundant_paths (getcwd E) (sources cfg))
        \<and> build_backup_pipeline E cfg w = (w1, Inr pl)
      \<longrightarrow> total_size pl = 0 \<and> ''-s'' \<notin> set (pv_cmd pl))
   \<and> (all_cached E ps
      \<longrightarrow> estimate_total_size E ps w
          = (sum_list (map (\<lambda>p. case map_of (cache_map E) p of Some v \<Rightarrow> v | None \<Rightarrow> 0) ps), w))
   \<and> (all_cached E (prune_redundant_paths (getcwd E) (sources cfg))
        \<and> build_backup_pipeline E cfg w = (w1, Inr pl)
      \<longrightarrow> total_size pl
            = sum_list (map (\<lambda>p. case map_of (cache_map E) p of Some v \<Rightarrow> v | None \<Rightarrow> 0)
                            (prune_redundant_paths (getcwd E) (sources cfg)))
          \<and> du_calls w1 = du_calls w)"
proof -
  have a: "(snd (build_backup_pipeline (E\<lparr>du_answer := d\<rparr>) cfg w) = Inl e)
      = (snd (build_backup_pipeline (E\<lparr>du_answer := d'\<rparr>) cfg w) = Inl e)"
    unfolding build_error_iff by simp
  have b: "sources cfg \<noteq> [] \<and> list_all (readable E) (prune_redundant_paths (getcwd E) (sources cfg))
        \<and> configuration_error cfg = None
      \<longrightarrow> (\<exists>w' pl. build_backup_pipeline E cfg w = (w', Inr pl))"
    using build_succeeds [of cfg E w] by blast
  have c: "du_failed (du_answer E) \<and> \<not> all_cached E ps
      \<longrightarrow> fst (estimate_total_size E ps w) = 0"
    using estimate_failed [of E ps w] by blast
  have d: "du_failed (du_answer E)
        \<and> \<not> all_cached E (prune_redundant_paths (getcwd E) (sources cfg))
        \<and> build_backup_pipeline E cfg w = (w1, Inr pl)
      \<longrightarrow> total_size pl = 0 \<and> ''-s'' \<notin> set (pv_cmd pl)"
  proof (intro impI, elim conjE)
    assume f: "du_failed (du_answer E)"
      and nc: "\<not> all_cached E (prune_redundant_paths (getcwd E) (sources cfg))"
      and bd: "build_backup_pipeline E cfg w = (w1, Inr pl)"
    have t: "total_size pl = 0"
      using build_ok(5) [OF bd] estimate_failed [OF f nc, of w] by simp
    have "pv_cmd pl = make_pv_cmd 0" using build_ok(6) [OF bd] t by simp
    then have "''-s'' \<notin> set (pv_cmd pl)" by (simp add: make_pv_cmd_def PV_BIN_def)
    with t show "total_size pl = 0 \<and> ''-s'' \<notin> set (pv_cmd pl)" by simp
  qed
  have e: "all_cached E ps
      \<longrightarrow> estimate_total_size E ps w
          = (sum_list (map (\<lambda>p. case map_of (cache_map E) p of Some v \<Rightarrow> v | None \<Rightarrow> 0) ps), w)"
    using estimate_cached [of E ps w] by blast
  have f: "all_cached E (prune_redundant_paths (getcwd E) (sources cfg))
        \<and> build_backup_pipeline E cfg w = (w1, Inr pl)
      \<longrightarrow> total_size pl
            = sum_list (map (\<lambda>p. case map_of (cache_map E) p of Some v \<Rightarrow> v | None \<Rightarrow> 0)
                            (prune_redundant_paths (getcwd E) (sources cfg)))
          \<and> du_calls w1 = du_calls w"
  proof (intro impI, elim conjE)
    assume ac: "all_cached E (prune_redundant_paths (getcwd E) (sources cfg))"
      and bd: "build_backup_pipeline E cfg w = (w1, Inr pl)"
    show "total_size pl
            = sum_list (map (\<lambda>p. case map_of (cache_map E) p of Some v \<Rightarrow> v | None \<Rightarrow> 0)
                            (prune_redundant_paths (getcwd E) (sources cfg)))
          \<and> du_calls w1 = du_calls w"
      using build_ok(5,7) [OF bd] estimate_cached [OF ac, of w] ac by simp
  qed
  from a b c d e f show ?thesis by blast
qed


text \<open>
  C9 for the single source \<^verbatim>\<open>/a\<close>: with an empty cache and a query that times out the
  pipeline is built with total 0; with \<^verbatim>\<open>/a\<close> cached at 100 bytes the total is 100 and no
  query is counted.
\<close>

theorem size_estimation_is_advisory_witness:
  "sources (no_config\<lparr>sources := [''/a'']\<rparr>) \<noteq> []
   \<and> list_all (readable (quiet_env\<lparr>du_answer := DuTimeout\<rparr>))
        (prune_redundant_paths (getcwd (quiet_env\<lparr>du_answer := DuTimeout\<rparr>))
           (sources (no_config\<lparr>sources := [''/a'']\<rparr>)))
   \<and> configuration_error (no_config\<lparr>sources := [''/a'']\<rparr>) = None
   \<and> du_failed (du_answer (quiet_env\<lparr>du_answer := DuTimeout\<rparr>))
   \<and> \<not> all_cached (quiet_env\<lparr>du_answer := DuTimeout\<rparr>)
          (prune_redundant_paths (getcwd (quiet_env\<lparr>du_answer := DuTimeout\<rparr>))
             (sources (no_config\<lparr>sources := [''/a'']\<rparr>)))
   \<and> total_size (projr (snd (build_backup_pipeline (quiet_env\<lparr>du_answer := DuTimeout\<rparr>)
                                 (no_config\<lparr>sources := [''/a'']\<rparr>) empty_world))) = 0
   \<and> all_cached (quiet_env\<lparr>root_node_cache := [(''/a'', 100)]\<rparr>)
          (prune_redundant_paths (getcwd (quiet_env\<lparr>root_node_cache := [(''/a'', 100)]\<rparr>))
             (sources (no_config\<lparr>sources := [''/a'']\<rparr>)))
   \<and> total_size (projr (snd (build_backup_pipeline (quiet_env\<lparr>root_node_cache := [(''/a'', 100)]\<rparr>)
                                 (no_config\<lparr>sources := [''/a'']\<rparr>) empty_world))) = 100
   \<and> du_calls (fst (build_backup_pipeline (quiet_env\<lparr>root_node_cache := [(''/a'', 100)]\<rparr>)
                          (no_config\<lparr>sources := [''/a'']\<rparr>) empty_world)) = 0"
proof -
  let ?C = "no_config\<lparr>sources := [''/a'']\<rparr>"
  let ?E1 = "quiet_env\<lparr>du_answer := DuTimeout\<rparr>"
  let ?E2 = "quiet_env\<lparr>root_node_cache := [(''/a'', 100)]\<rparr>"
  have pr: "prune_redundant_paths (getcwd ?E1) (sources ?C) = [''/a'']"
    "prune_redundant_paths (getcwd ?E2) (sources ?C) = [''/a'']"
    by code_simp+
  have h1: "sources ?C \<noteq> []" by simp
  have h2: "list_all (readable ?E1) (prune_redundant_paths (getcwd ?E1) (sources ?C))"
    "list_all (readable ?E2) (prune_redundant_paths (getcwd ?E2) (sources ?C))"
    unfolding pr by (simp_all add: quiet_env_def)
  have h3: "configuration_error ?C = None"
    by (simp add: configuration_error_def no_config_def flag_true_def)
  have h4: "du_failed (du_answer ?E1)" by simp
  have h5: "\<not> all_cached ?E1 (prune_redundant_paths (getcwd ?E1) (sources ?C))"
    unfolding pr by (simp add: all_cached_def cache_map_def quiet_env_def)
  have h6: "all_cached ?E2 (prune_redundant_paths (getcwd ?E2) (sources ?C))"
    unfolding pr by (simp add: all_cached_def cache_map_def)
  have sum: "sum_list (map (\<lambda>p. case map_of (cache_map ?E2) p of Some v \<Rightarrow> v | None \<Rightarrow> 0)
               (prune_redundant_paths (getcwd ?E2) (sources ?C))) = 100"
    unfolding pr by (simp add: cache_map_def)
  have du0: "du_calls empty_world = 0" by (simp add: empty_world_def)
  note t1 = size_estimation_is_advisory [where E = ?E1 and cfg = ?C and w = empty_world
      and ps = "prune_redundant_paths (getcwd ?E1) (sources ?C)"
      and ?w1.0 = "fst (build_backup_pipeline ?E1 ?C empty_world)"
      and pl = "projr (snd (build_backup_pipeline ?E1 ?C empty_world))"]
  note t2 = size_estimation_is_advisory [where E = ?E2 and cfg = ?C and w = empty_world
      and ps = "prune_redundant_paths (getcwd ?E2) (sources ?C)"
      and ?w1.0 = "fst (build_backup_pipeline ?E2 ?C empty_world)"
      and pl = "projr (snd (build_backup_pipeline ?E2 ?C empty_world))"]
  from t1 h1 h2(1) h3 obtain w' pl where b1: "build_backup_pipeline ?E1 ?C empty_world = (w', Inr pl)"
    by blast
  then have b1': "build_backup_pipeline ?E1 ?C empty_world
      = (fst (build_backup_pipeline ?E1 ?C empty_world),
         Inr (projr (snd (build_backup_pipeline ?E1 ?C empty_world))))" by simp
  from t2 h1 h2(2) h3 obtain w'' pl' where b2: "build_backup_pipeline ?E2 ?C empty_world = (w'', Inr pl')"
    by blast
  then have b2': "build_backup_pipeline ?E2 ?C empty_world
      = (fst (build_backup_pipeline ?E2 ?C empty_world),
         Inr (projr (snd (build_backup_pipeline ?E2 ?C empty_world))))" by simp
  have r1: "total_size (projr (snd (build_backup_pipeline ?E1 ?C empty_world))) = 0"
    using t1 h4 h5 b1' by blast
  have r2: "total_size (projr (snd (build_backup_pipeline ?E2 ?C empty_world))) = 100
            \<and> du_calls (fst (build_backup_pipeline ?E2 ?C empty_world)) = 0"
    using t2 h6 b2' sum du0 by metis
  from h1 h2(1) h3 h4 h5 h6 r1 r2 show ?thesis by blast
qed

end
